theory Spec2Isabelle
  imports Main
begin

section \<open>Data model of the trace debugger (web/src/app.ts)\<close>

text \<open>
  The trace is a JSON object received from the server. Only the fields that the cursor,
  the stepper, the synchroniser and the decoration code read are kept. A field that the
  code tests against \<open>null\<close> before use is an \<open>option\<close>. Numbers are integers
  (indices, program counters, line numbers, depths and frame ids). The line of a span is
  a number, and 0 is what the code treats as "no line". The mode is the string
  \<open>"opcode"\<close> or \<open>"source"\<close>, and the breakpoints are a set of line numbers.
\<close>

record span =
  line :: int
  end_line :: "int option"

record step_mapping =
  span :: "span option"
  m_frame_id :: "int option"
  m_call_depth :: "int option"

record step =
  pc :: "int option"
  call_depth :: "int option"
  frame_id :: "int option"
  is_executing :: bool
  mapping :: "step_mapping option"

record trace =
  opcode_steps :: "step list option"
  source_steps :: "step list option"
  steps :: "step list option"

datatype dbg_mode = Source | Opcode

datatype tint = Pass | Fail

record frame_span =
  startLine :: int
  endLine :: int

record dbg =
  mode :: dbg_mode
  sourceStep :: int
  opcodeStep :: int
  breakpoints :: "int set"
  fnTintSpan :: "frame_span option"
  fnTintKind :: "tint option"

record state =
  trace :: "trace option"
  dbg :: dbg

section \<open>Helpers\<close>

text \<open>\<open>clamp(n, lo, hi) = Math.max(lo, Math.min(hi, n))\<close>.\<close>

definition clamp :: "int \<Rightarrow> int \<Rightarrow> int \<Rightarrow> int" where
  "clamp n lo hi = max lo (min hi n)"

text \<open>
  JavaScript array read \<open>xs[i]\<close>: \<open>undefined\<close> (here \<open>None\<close>) outside
  \<open>0 .. length - 1\<close>.
\<close>

definition at :: "'a list \<Rightarrow> int \<Rightarrow> 'a option" where
  "at xs i = (if 0 \<le> i \<and> i < int (length xs) then Some (xs ! nat i) else None)"

text \<open>\<open>mappingLine\<close>: the line of the mapping's span, \<open>null\<close> without mapping or span.\<close>

definition mappingLine :: "step_mapping option \<Rightarrow> int option" where
  "mappingLine m =
     (case m of None \<Rightarrow> None
      | Some mp \<Rightarrow> (case span mp of None \<Rightarrow> None | Some sp \<Rightarrow> Some (line sp)))"

text \<open>
  \<open>getOpcodeSteps\<close> and \<open>getSourceSteps\<close>: the dedicated sequence when it is a
  non-empty array, else the unified \<open>steps\<close> array, else the empty array.
\<close>

definition getOpcodeSteps :: "trace option \<Rightarrow> step list" where
  "getOpcodeSteps t =
     (case t of None \<Rightarrow> []
      | Some tr \<Rightarrow>
          (case opcode_steps tr of
             Some (x # xs) \<Rightarrow> x # xs
           | _ \<Rightarrow> (case steps tr of Some ys \<Rightarrow> ys | None \<Rightarrow> [])))"

definition getSourceSteps :: "trace option \<Rightarrow> step list" where
  "getSourceSteps t =
     (case t of None \<Rightarrow> []
      | Some tr \<Rightarrow>
          (case source_steps tr of
             Some (x # xs) \<Rightarrow> x # xs
           | _ \<Rightarrow> (case steps tr of Some ys \<Rightarrow> ys | None \<Rightarrow> [])))"

definition getActiveSteps :: "state \<Rightarrow> step list" where
  "getActiveSteps st =
     (case trace st of None \<Rightarrow> []
      | Some tr \<Rightarrow>
          (if mode (dbg st) = Opcode then getOpcodeSteps (Some tr)
           else getSourceSteps (Some tr)))"

text \<open>\<open>frameIdFromStep\<close>: the step's own frame id, else its mapping's, else \<open>null\<close>.\<close>

definition frameIdFromStep :: "step option \<Rightarrow> int option" where
  "frameIdFromStep s =
     (case s of None \<Rightarrow> None
      | Some stp \<Rightarrow>
          (case frame_id stp of Some f \<Rightarrow> Some f
           | None \<Rightarrow>
               (case mapping stp of None \<Rightarrow> None
                | Some mp \<Rightarrow> m_frame_id mp)))"

text \<open>\<open>stepDepth\<close>: the step's call depth, else its mapping's, else 0.\<close>

definition stepDepth :: "step option \<Rightarrow> int" where
  "stepDepth s =
     (case s of None \<Rightarrow> 0
      | Some stp \<Rightarrow>
          (case call_depth stp of Some d \<Rightarrow> d
           | None \<Rightarrow>
               (case mapping stp of None \<Rightarrow> 0
                | Some mp \<Rightarrow> (case m_call_depth mp of Some d \<Rightarrow> d | None \<Rightarrow> 0))))"

text \<open>\<open>Number(s.pc || 0)\<close>, and \<open>snap.pc != null ? snap.pc : 0\<close>: a missing pc reads as 0.\<close>

definition pcOf :: "step \<Rightarrow> int" where
  "pcOf s = (case pc s of None \<Rightarrow> 0 | Some p \<Rightarrow> p)"

section \<open>Stepper searches\<close>

definition sourceStepIntoIndex :: "step list \<Rightarrow> int \<Rightarrow> int" where
  "sourceStepIntoIndex stps idx = clamp (idx + 1) 0 (max 0 (int (length stps) - 1))"

text \<open>The \<open>for\<close> loop of \<open>sourceStepOverIndex\<close>, from loop variable \<open>i\<close>.\<close>

function sourceStepOverLoop :: "step list \<Rightarrow> int \<Rightarrow> int \<Rightarrow> int" where
  "sourceStepOverLoop stps currentDepth i =
     (if i < int (length stps) then
        (if stepDepth (at stps i) \<le> currentDepth then i
         else sourceStepOverLoop stps currentDepth (i + 1))
      else max 0 (int (length stps) - 1))"
  by pat_completeness auto
termination
  by (relation "measure (\<lambda>(stps, d, i). nat (int (length stps) - i))") auto

definition sourceStepOverIndex :: "step list \<Rightarrow> int \<Rightarrow> int" where
  "sourceStepOverIndex stps idx =
     sourceStepOverLoop stps (stepDepth (at stps idx)) (idx + 1)"

text \<open>The \<open>for\<close> loop of \<open>sourceStepOutIndex\<close>: the same scan with a strict test.\<close>

function sourceStepOutLoop :: "step list \<Rightarrow> int \<Rightarrow> int \<Rightarrow> int" where
  "sourceStepOutLoop stps currentDepth i =
     (if i < int (length stps) then
        (if stepDepth (at stps i) < currentDepth then i
         else sourceStepOutLoop stps currentDepth (i + 1))
      else max 0 (int (length stps) - 1))"
  by pat_completeness auto
termination
  by (relation "measure (\<lambda>(stps, d, i). nat (int (length stps) - i))") auto

definition sourceStepOutIndex :: "step list \<Rightarrow> int \<Rightarrow> int" where
  "sourceStepOutIndex stps idx =
     sourceStepOutLoop stps (stepDepth (at stps idx)) (idx + 1)"

section \<open>Decoration: the line range of a call frame\<close>

text \<open>\<open>Number(mapping.span.end_line || line)\<close>: a missing or zero end line reads as the line.\<close>

definition spanEnd :: "span \<Rightarrow> int" where
  "spanEnd sp = (case end_line sp of None \<Rightarrow> line sp | Some e \<Rightarrow> if e \<noteq> 0 then e else line sp)"

text \<open>
  The \<open>for ... of\<close> loop of \<open>frameSpanForFrame\<close>, with its two accumulators
  \<open>startLine\<close> and \<open>endLine\<close> (0 means "not set yet"). A step is skipped
  (\<open>continue\<close>) without mapping or span, with another frame id, or with line 0.
\<close>

fun frameSpanLoop :: "step list \<Rightarrow> int \<Rightarrow> int \<Rightarrow> int \<Rightarrow> int \<times> int" where
  "frameSpanLoop [] target startLn endLn = (startLn, endLn)"
| "frameSpanLoop (s # rest) target startLn endLn =
     (case mapping s of
        None \<Rightarrow> frameSpanLoop rest target startLn endLn
      | Some mp \<Rightarrow>
          (case span mp of
             None \<Rightarrow> frameSpanLoop rest target startLn endLn
           | Some sp \<Rightarrow>
               (if frameIdFromStep (Some s) \<noteq> Some target
                then frameSpanLoop rest target startLn endLn
                else
                  (let ln = line sp;
                       en = spanEnd sp
                   in if ln = 0 then frameSpanLoop rest target startLn endLn
                      else frameSpanLoop rest target
                             (if startLn = 0 \<or> ln < startLn then ln else startLn)
                             (if endLn = 0 \<or> en > endLn then en else endLn)))))"

text \<open>
  The steps the loop body does not skip for frame \<open>target\<close>: those with a mapping whose
  span is \<open>sp\<close>, with frame id \<open>target\<close> and with a line other than 0.
\<close>

definition contributes :: "int \<Rightarrow> step \<Rightarrow> span \<Rightarrow> bool" where
  "contributes target s sp \<longleftrightarrow>
     (case mapping s of None \<Rightarrow> False | Some mp \<Rightarrow> span mp = Some sp)
     \<and> frameIdFromStep (Some s) = Some target \<and> line sp \<noteq> 0"

definition frameSpanForFrame :: "step list \<Rightarrow> int option \<Rightarrow> frame_span option" where
  "frameSpanForFrame stps frameId =
     (case frameId of
        None \<Rightarrow> None
      | Some target \<Rightarrow>
          (case frameSpanLoop stps target 0 0 of
             (startLn, endLn) \<Rightarrow>
               if startLn = 0 \<or> endLn = 0 then None
               else Some \<lparr>startLine = startLn, endLine = endLn\<rparr>))"

text \<open>
  \<open>updateEditorDecorations\<close>, as far as it writes the debugger state: the tint span and
  kind are cleared first and set again only when a span is found. The style properties of
  the editor element are not modelled (the element is taken to exist).
\<close>

definition updateEditorDecorations :: "state \<Rightarrow> step option \<Rightarrow> tint option \<Rightarrow> state" where
  "updateEditorDecorations st snap fnTint =
     (let st0 = st\<lparr>dbg := (dbg st)\<lparr>fnTintSpan := None, fnTintKind := None\<rparr>\<rparr>
      in case snap of
           None \<Rightarrow> st0
         | Some sn \<Rightarrow>
             (case fnTint of
                None \<Rightarrow> st0
              | Some k \<Rightarrow>
                  (case trace st of
                     None \<Rightarrow> st0
                   | Some tr \<Rightarrow>
                       (let targetFrameId =
                              (if k = Pass then Some 0 else frameIdFromStep (Some sn))
                        in case frameSpanForFrame (getSourceSteps (Some tr)) targetFrameId of
                             None \<Rightarrow> st0
                           | Some sp \<Rightarrow>
                               st0\<lparr>dbg := (dbg st0)\<lparr>fnTintSpan := Some sp,
                                                     fnTintKind := Some k\<rparr>\<rparr>))))"

section \<open>Cursor\<close>

definition getActiveStepIndex :: "state \<Rightarrow> step list \<Rightarrow> int" where
  "getActiveStepIndex st stps =
     (let mx = max 0 (int (length stps) - 1)
      in if mode (dbg st) = Opcode then clamp (opcodeStep (dbg st)) 0 mx
         else clamp (sourceStep (dbg st)) 0 mx)"

definition setActiveStepIndex :: "state \<Rightarrow> int \<Rightarrow> state" where
  "setActiveStepIndex st idx =
     (if mode (dbg st) = Opcode then st\<lparr>dbg := (dbg st)\<lparr>opcodeStep := idx\<rparr>\<rparr>
      else st\<lparr>dbg := (dbg st)\<lparr>sourceStep := idx\<rparr>\<rparr>)"

text \<open>\<open>activeSnapshot\<close> returns the active step and writes the clamped index back.\<close>

definition activeSnapshot :: "state \<Rightarrow> step option \<times> state" where
  "activeSnapshot st =
     (let stps = getActiveSteps st
      in if stps = [] then (None, st)
         else (let idx = getActiveStepIndex st stps
               in (at stps idx, setActiveStepIndex st idx)))"

section \<open>Synchroniser\<close>

text \<open>
  The scan of \<open>sourceIndexFromOpcodeIndex\<close>: \<open>best\<close> follows \<open>i\<close> until the first
  source step whose pc is above the target (\<open>break\<close>).
\<close>

function sourceIndexLoop :: "step list \<Rightarrow> int \<Rightarrow> nat \<Rightarrow> nat \<Rightarrow> nat" where
  "sourceIndexLoop srcs targetPc i best =
     (if i < length srcs then
        (if pcOf (srcs ! i) > targetPc then best
         else sourceIndexLoop srcs targetPc (Suc i) i)
      else best)"
  by pat_completeness auto
termination
  by (relation "measure (\<lambda>(srcs, t, i, b). length srcs - i)") auto

definition sourceIndexFromOpcodeIndex :: "state \<Rightarrow> int \<Rightarrow> int" where
  "sourceIndexFromOpcodeIndex st opcodeIndex =
     (case trace st of
        None \<Rightarrow> 0
      | Some tr \<Rightarrow>
          (let ops = getOpcodeSteps (Some tr);
               srcs = getSourceSteps (Some tr)
           in if srcs = [] then 0
              else
                (let opSnap = at ops (clamp opcodeIndex 0 (max 0 (int (length ops) - 1)));
                     targetPc = (case opSnap of None \<Rightarrow> 0 | Some s \<Rightarrow> pcOf s)
                 in int (sourceIndexLoop srcs targetPc 0 0))))"

definition syncOpcodeFromSource :: "state \<Rightarrow> state" where
  "syncOpcodeFromSource st =
     (case trace st of
        None \<Rightarrow> st
      | Some tr \<Rightarrow>
          (let ops = getOpcodeSteps (Some tr);
               srcs = getSourceSteps (Some tr)
           in if ops = [] \<or> srcs = [] then st
              else
                (let srcIdx = clamp (sourceStep (dbg st)) 0 (int (length srcs) - 1);
                     snap = at srcs srcIdx;
                     p = (case snap of None \<Rightarrow> 0 | Some s \<Rightarrow> pcOf s)
                 in st\<lparr>dbg := (dbg st)\<lparr>opcodeStep := clamp p 0 (int (length ops) - 1)\<rparr>\<rparr>)))"

definition syncSourceFromOpcode :: "state \<Rightarrow> state" where
  "syncSourceFromOpcode st =
     (case trace st of
        None \<Rightarrow> st
      | Some tr \<Rightarrow>
          (if getSourceSteps (Some tr) = [] then st
           else st\<lparr>dbg := (dbg st)\<lparr>sourceStep :=
                       sourceIndexFromOpcodeIndex st (opcodeStep (dbg st))\<rparr>\<rparr>))"

definition resetDbgCursor :: "state \<Rightarrow> state" where
  "resetDbgCursor st =
     (case trace st of
        None \<Rightarrow> st
      | Some tr \<Rightarrow>
          (let srcs = getSourceSteps (Some tr);
               ops = getOpcodeSteps (Some tr);
               st1 = st\<lparr>dbg := (dbg st)\<lparr>sourceStep := 0, opcodeStep := 0,
                        mode := (if srcs \<noteq> [] then Source else Opcode)\<rparr>\<rparr>
           in if srcs \<noteq> [] \<and> ops \<noteq> [] then syncOpcodeFromSource st1 else st1))"

text \<open>
  Installing a trace: what the success path of \<open>runTrace\<close> does to the trace and the
  cursor. It stores the trace, redraws the gutter (which reads the active snapshot and so
  writes the clamped index back) and resets the cursor. Breakpoints are not touched
  ("Keep breakpoints across runs").
\<close>

definition installTrace :: "state \<Rightarrow> trace \<Rightarrow> state" where
  "installTrace st tr = resetDbgCursor (snd (activeSnapshot (st\<lparr>trace := Some tr\<rparr>)))"

section \<open>Stepper operations\<close>

definition stepIntoSource :: "state \<Rightarrow> state" where
  "stepIntoSource st =
     (case trace st of
        None \<Rightarrow> st
      | Some tr \<Rightarrow>
          (let srcs = getSourceSteps (Some tr)
           in if srcs = [] then st
              else
                (let st1 = (if mode (dbg st) = Opcode then syncSourceFromOpcode st else st);
                     st2 = st1\<lparr>dbg := (dbg st1)\<lparr>mode := Source\<rparr>\<rparr>;
                     idx = clamp (sourceStep (dbg st2)) 0 (int (length srcs) - 1);
                     st3 = st2\<lparr>dbg := (dbg st2)\<lparr>sourceStep := sourceStepIntoIndex srcs idx\<rparr>\<rparr>
                 in syncOpcodeFromSource st3)))"

definition stepOverSource :: "state \<Rightarrow> state" where
  "stepOverSource st =
     (case trace st of
        None \<Rightarrow> st
      | Some tr \<Rightarrow>
          (let srcs = getSourceSteps (Some tr)
           in if srcs = [] then st
              else
                (let st1 = (if mode (dbg st) = Opcode then syncSourceFromOpcode st else st);
                     st2 = st1\<lparr>dbg := (dbg st1)\<lparr>mode := Source\<rparr>\<rparr>;
                     idx = clamp (sourceStep (dbg st2)) 0 (int (length srcs) - 1);
                     st3 = st2\<lparr>dbg := (dbg st2)\<lparr>sourceStep := sourceStepOverIndex srcs idx\<rparr>\<rparr>
                 in syncOpcodeFromSource st3)))"

definition stepOutSource :: "state \<Rightarrow> state" where
  "stepOutSource st =
     (case trace st of
        None \<Rightarrow> st
      | Some tr \<Rightarrow>
          (let srcs = getSourceSteps (Some tr)
           in if srcs = [] then st
              else
                (let st1 = (if mode (dbg st) = Opcode then syncSourceFromOpcode st else st);
                     st2 = st1\<lparr>dbg := (dbg st1)\<lparr>mode := Source\<rparr>\<rparr>;
                     idx = clamp (sourceStep (dbg st2)) 0 (int (length srcs) - 1);
                     st3 = st2\<lparr>dbg := (dbg st2)\<lparr>sourceStep := sourceStepOutIndex srcs idx\<rparr>\<rparr>
                 in syncOpcodeFromSource st3)))"

definition stepOpcode :: "state \<Rightarrow> int \<Rightarrow> state" where
  "stepOpcode st delta =
     (case trace st of
        None \<Rightarrow> st
      | Some tr \<Rightarrow>
          (let ops = getOpcodeSteps (Some tr)
           in if ops = [] then st
              else
                (let st1 = (if mode (dbg st) \<noteq> Opcode then syncOpcodeFromSource st else st);
                     st2 = st1\<lparr>dbg := (dbg st1)\<lparr>mode := Opcode\<rparr>\<rparr>;
                     idx = clamp (opcodeStep (dbg st2) + delta) 0 (int (length ops) - 1);
                     st3 = st2\<lparr>dbg := (dbg st2)\<lparr>opcodeStep := idx\<rparr>\<rparr>
                 in syncSourceFromOpcode st3)))"

text \<open>
  The scan of \<open>continueToBreakpoint\<close> from loop variable \<open>k\<close>: a step that is not
  executing is skipped; a step stops the scan when its mapped line is truthy (present and
  not 0) and in the breakpoint set. Without a hit the result is \<open>last\<close>.
\<close>

function continueLoop :: "step list \<Rightarrow> int set \<Rightarrow> nat \<Rightarrow> int" where
  "continueLoop srcs bps k =
     (if k < length srcs then
        (if \<not> is_executing (srcs ! k) then continueLoop srcs bps (Suc k)
         else
           (case mappingLine (mapping (srcs ! k)) of
              None \<Rightarrow> continueLoop srcs bps (Suc k)
            | Some ln \<Rightarrow>
                if ln \<noteq> 0 \<and> ln \<in> bps then int k
                else continueLoop srcs bps (Suc k)))
      else int (length srcs) - 1)"
  by pat_completeness auto
termination
  by (relation "measure (\<lambda>(srcs, bps, k). length srcs - k)") auto

text \<open>\<open>continueToBreakpoint\<close> returns the index and, in opcode mode, resynchronises first.\<close>

definition continueToBreakpoint :: "state \<Rightarrow> int \<times> state" where
  "continueToBreakpoint st =
     (case trace st of
        None \<Rightarrow> (0, st)
      | Some tr \<Rightarrow>
          (let srcs = getSourceSteps (Some tr)
           in if srcs = [] then (0, st)
              else
                (let st1 = (if mode (dbg st) = Opcode then syncSourceFromOpcode st else st);
                     start = clamp (sourceStep (dbg st1)) 0 (int (length srcs) - 1);
                     last = int (length srcs) - 1
                 in if breakpoints (dbg st1) = {} then (last, st1)
                    else (continueLoop srcs (breakpoints (dbg st1)) (nat (start + 1)), st1))))"

definition continueExecution :: "state \<Rightarrow> state" where
  "continueExecution st =
     (case trace st of
        None \<Rightarrow> st
      | Some tr \<Rightarrow>
          (let srcs = getSourceSteps (Some tr)
           in if srcs \<noteq> [] then
                (let st1 = st\<lparr>dbg := (dbg st)\<lparr>mode := Source\<rparr>\<rparr>;
                     r = continueToBreakpoint st1;
                     st2 = (snd r)\<lparr>dbg := (dbg (snd r))\<lparr>sourceStep := fst r\<rparr>\<rparr>
                 in syncOpcodeFromSource st2)
              else
                (let ops = getOpcodeSteps (Some tr)
                 in st\<lparr>dbg := (dbg st)\<lparr>mode := Opcode,
                          opcodeStep := max 0 (int (length ops) - 1)\<rparr>\<rparr>)))"

text \<open>
  The gutter click handler: a click on line 0 (no line) is ignored, any other line is
  added to the breakpoint set when absent and removed when present.
\<close>

definition toggleBreakpoint :: "state \<Rightarrow> int \<Rightarrow> state" where
  "toggleBreakpoint st ln =
     (if ln = 0 then st
      else if ln \<in> breakpoints (dbg st)
           then st\<lparr>dbg := (dbg st)\<lparr>breakpoints := breakpoints (dbg st) - {ln}\<rparr>\<rparr>
           else st\<lparr>dbg := (dbg st)\<lparr>breakpoints := insert ln (breakpoints (dbg st))\<rparr>\<rparr>)"

declare sourceStepOverLoop.simps [simp del]
declare sourceStepOutLoop.simps [simp del]
declare sourceIndexLoop.simps [simp del]
declare continueLoop.simps [simp del]

section \<open>Example traces and states\<close>

text \<open>
  \<open>exStep p d f ln ex\<close> is a step with pc \<open>p\<close>, call depth \<open>d\<close>, frame id \<open>f\<close>,
  a span on line \<open>ln\<close> and the executing flag \<open>ex\<close>. \<open>exDepths\<close> is the
  five-step source sequence with depths 0, 1, 1, 2, 0.
\<close>

definition exStep :: "int \<Rightarrow> int \<Rightarrow> int \<Rightarrow> int \<Rightarrow> bool \<Rightarrow> step" where
  "exStep p d f ln ex =
     \<lparr>pc = Some p, call_depth = Some d, frame_id = Some f, is_executing = ex,
      mapping = Some \<lparr>span = Some \<lparr>line = ln, end_line = None\<rparr>,
                      m_frame_id = None, m_call_depth = None\<rparr>\<rparr>"

definition exDepths :: "step list" where
  "exDepths = [exStep 0 0 0 1 True, exStep 1 1 1 5 True, exStep 2 1 1 6 True,
               exStep 3 2 2 9 True, exStep 4 0 0 2 True]"

text \<open>
  \<open>exBps\<close> is a source sequence whose line 9 is reached twice, first by a step that
  is not executing; \<open>exBpState\<close> has it loaded with a breakpoint on line 9.
  \<open>exOpsOnly\<close> is a state whose trace has opcode steps only.
\<close>

definition exBps :: "step list" where
  "exBps = [exStep 0 0 0 1 True, exStep 1 0 0 5 True, exStep 2 0 0 9 False,
            exStep 3 0 0 6 True, exStep 4 0 0 9 True, exStep 5 0 0 2 True]"

definition exDbg :: dbg where
  "exDbg = \<lparr>mode = Source, sourceStep = 0, opcodeStep = 0, breakpoints = {},
            fnTintSpan = None, fnTintKind = None\<rparr>"

definition exBpState :: state where
  "exBpState =
     \<lparr>trace = Some \<lparr>opcode_steps = None, source_steps = Some exBps, steps = None\<rparr>,
      dbg = exDbg\<lparr>breakpoints := {9}\<rparr>\<rparr>"

definition exOpsOnly :: state where
  "exOpsOnly =
     \<lparr>trace = Some \<lparr>opcode_steps = Some exDepths, source_steps = Some [], steps = None\<rparr>,
      dbg = exDbg\<rparr>"

text \<open>
  \<open>exPcs ps\<close> is a step sequence with the pcs \<open>ps\<close>. \<open>exSync\<close> has ten opcode
  steps whose pc is their index and source steps at pcs 0, 4, 8. \<open>exLateTrace\<close> has four
  opcode steps and source steps at pcs 2 and 3, so its first source step comes after
  two opcodes; \<open>exLate\<close> is a state that holds it.
\<close>

definition exPcs :: "int list \<Rightarrow> step list" where
  "exPcs ps = map (\<lambda>p. exStep p 0 0 1 True) ps"

definition exSync :: state where
  "exSync =
     \<lparr>trace = Some \<lparr>opcode_steps = Some (exPcs [0, 1, 2, 3, 4, 5, 6, 7, 8, 9]),
                     source_steps = Some (exPcs [0, 4, 8]), steps = None\<rparr>,
      dbg = exDbg\<rparr>"

definition exLateTrace :: trace where
  "exLateTrace =
     \<lparr>opcode_steps = Some (exPcs [0, 1, 2, 3]), source_steps = Some (exPcs [2, 3]),
      steps = None\<rparr>"

definition exLate :: state where
  "exLate = \<lparr>trace = Some exLateTrace, dbg = exDbg\<rparr>"

text \<open>
  \<open>exOutOfRange\<close> is \<open>exSync\<close> with a stored source index beyond the sequence,
  \<open>exNoTrace\<close> a state without trace, and \<open>exEmpty\<close> a state in source mode whose
  trace has two empty sequences.
\<close>

definition exOutOfRange :: state where
  "exOutOfRange = exSync\<lparr>dbg := (dbg exSync)\<lparr>sourceStep := 99\<rparr>\<rparr>"

definition exNoTrace :: state where
  "exNoTrace = \<lparr>trace = None, dbg = exDbg\<lparr>sourceStep := 7\<rparr>\<rparr>"

definition exEmpty :: state where
  "exEmpty =
     \<lparr>trace = Some \<lparr>opcode_steps = Some [], source_steps = Some [], steps = None\<rparr>,
      dbg = exDbg\<lparr>opcodeStep := 3\<rparr>\<rparr>"

text \<open>
  \<open>exSpanStep f ln en\<close> is a step of frame \<open>f\<close> with a span from line \<open>ln\<close> to the
  optional end line \<open>en\<close>. \<open>exFrameSteps\<close> has two steps of frame 0, two of frame 1
  with spans, one of frame 2 and one of frame 1 without mapping.
\<close>

definition exSpanStep :: "int \<Rightarrow> int \<Rightarrow> int option \<Rightarrow> step" where
  "exSpanStep f ln en =
     \<lparr>pc = Some 0, call_depth = Some 0, frame_id = Some f, is_executing = True,
      mapping = Some \<lparr>span = Some \<lparr>line = ln, end_line = en\<rparr>,
                      m_frame_id = None, m_call_depth = None\<rparr>\<rparr>"

definition exFrameSteps :: "step list" where
  "exFrameSteps =
     [exSpanStep 0 1 None, exSpanStep 1 5 (Some 7), exSpanStep 1 6 None,
      exSpanStep 2 9 None, exSpanStep 0 2 (Some 3),
      \<lparr>pc = Some 0, call_depth = Some 0, frame_id = Some 1, is_executing = True,
       mapping = None\<rparr>]"

definition exFrames :: state where
  "exFrames =
     \<lparr>trace = Some \<lparr>opcode_steps = None, source_steps = Some exFrameSteps, steps = None\<rparr>,
      dbg = exDbg\<rparr>"

section \<open>Step Over\<close>

text \<open>
  The scan either stops at the first index from \<open>i\<close> on whose depth is at most \<open>d\<close>,
  or no such index exists and it falls back to the last index.
\<close>

lemma sourceStepOverLoop_cases:
  "(i \<le> sourceStepOverLoop stps d i \<and> sourceStepOverLoop stps d i < int (length stps)
      \<and> stepDepth (at stps (sourceStepOverLoop stps d i)) \<le> d
      \<and> (\<forall>k. i \<le> k \<and> k < sourceStepOverLoop stps d i \<longrightarrow> \<not> stepDepth (at stps k) \<le> d))
   \<or> ((\<forall>k. i \<le> k \<and> k < int (length stps) \<longrightarrow> \<not> stepDepth (at stps k) \<le> d)
      \<and> sourceStepOverLoop stps d i = max 0 (int (length stps) - 1))"
proof (induction stps d i rule: sourceStepOverLoop.induct)
  case (1 stps d i)
  show ?case
  proof (cases "i < int (length stps)")
    case False
    then show ?thesis by (simp add: sourceStepOverLoop.simps [of stps d i])
  next
    case inr: True
    show ?thesis
    proof (cases "stepDepth (at stps i) \<le> d")
      case True
      with inr show ?thesis by (simp add: sourceStepOverLoop.simps [of stps d i])
    next
      case False
      have eq: "sourceStepOverLoop stps d i = sourceStepOverLoop stps d (i + 1)"
        using inr False by (simp add: sourceStepOverLoop.simps [of stps d i])
      from "1.IH" [OF inr False] show ?thesis
        unfolding eq using False by (metis add1_zle_eq order_le_less)
    qed
  qed
qed

text \<open>
  C3. From an in-range index \<open>i\<close> of a non-empty step list, with \<open>d\<close> the call depth
  at \<open>i\<close>, Step Over returns the smallest index \<open>j > i\<close> whose step has call depth
  at most \<open>d\<close> (every index strictly between is deeper); when there is none it returns
  the last index.
\<close>

theorem stepOver_first_not_deeper:
  assumes "stps \<noteq> []" and "0 \<le> i" and "i < int (length stps)"
    and "d = stepDepth (at stps i)" and "r = sourceStepOverIndex stps i"
  shows "((\<exists>j. i < j \<and> j < int (length stps) \<and> stepDepth (at stps j) \<le> d) \<longrightarrow>
            i < r \<and> r < int (length stps) \<and> stepDepth (at stps r) \<le> d
            \<and> (\<forall>j. i < j \<and> j < r \<longrightarrow> d < stepDepth (at stps j)))
       \<and> (\<not> (\<exists>j. i < j \<and> j < int (length stps) \<and> stepDepth (at stps j) \<le> d) \<longrightarrow>
            r = int (length stps) - 1)"
proof -
  have len: "max 0 (int (length stps) - 1) = int (length stps) - 1"
    using assms(1) by (cases stps) simp_all
  have r: "r = sourceStepOverLoop stps d (i + 1)"
    using assms(4,5) by (simp add: sourceStepOverIndex_def)
  from sourceStepOverLoop_cases [of "i + 1" stps d]
  show ?thesis
  proof (elim disjE conjE)
    assume a: "i + 1 \<le> sourceStepOverLoop stps d (i + 1)"
      "sourceStepOverLoop stps d (i + 1) < int (length stps)"
      "stepDepth (at stps (sourceStepOverLoop stps d (i + 1))) \<le> d"
      "\<forall>k. i + 1 \<le> k \<and> k < sourceStepOverLoop stps d (i + 1) \<longrightarrow> \<not> stepDepth (at stps k) \<le> d"
    have "\<exists>j. i < j \<and> j < int (length stps) \<and> stepDepth (at stps j) \<le> d"
      using a(1-3) unfolding r [symmetric] by (intro exI [of _ r]) simp
    moreover have "\<forall>j. i < j \<and> j < r \<longrightarrow> d < stepDepth (at stps j)"
      using a(4) unfolding r [symmetric] by (simp add: not_le)
    ultimately show ?thesis using a(1-3) unfolding r [symmetric] by simp
  next
    assume b: "\<forall>k. i + 1 \<le> k \<and> k < int (length stps) \<longrightarrow> \<not> stepDepth (at stps k) \<le> d"
      "sourceStepOverLoop stps d (i + 1) = max 0 (int (length stps) - 1)"
    have none: "\<not> (\<exists>j. i < j \<and> j < int (length stps) \<and> stepDepth (at stps j) \<le> d)"
      using b(1) by simp
    have "r = int (length stps) - 1" using b(2) r len by simp
    with none show ?thesis by blast
  qed
qed

theorem stepOver_first_not_deeper_witness:
  "exDepths \<noteq> [] \<and> (0::int) \<le> 1 \<and> 1 < int (length exDepths)
   \<and> 1 = stepDepth (at exDepths 1) \<and> 2 = sourceStepOverIndex exDepths 1
   \<and> (\<exists>j. 1 < j \<and> j < int (length exDepths) \<and> stepDepth (at exDepths j) \<le> 1)
   \<and> (2::int) < int (length exDepths) \<and> stepDepth (at exDepths 2) \<le> 1
   \<and> \<not> (\<exists>j. 4 < j \<and> j < int (length exDepths) \<and> stepDepth (at exDepths j) \<le> 0)
   \<and> sourceStepOverIndex exDepths 4 = int (length exDepths) - 1"
proof -
  have h1: "exDepths \<noteq> []" by (simp add: exDepths_def)
  have h2: "(0::int) \<le> 1" by simp
  have h3: "1 < int (length exDepths)" by (simp add: exDepths_def)
  have h4: "1 = stepDepth (at exDepths 1)" by code_simp
  have h5: "2 = sourceStepOverIndex exDepths 1" by code_simp
  have ex: "\<exists>j. 1 < j \<and> j < int (length exDepths) \<and> stepDepth (at exDepths j) \<le> 1"
    by (rule exI [of _ 4]) (simp add: exDepths_def exStep_def at_def stepDepth_def)
  from stepOver_first_not_deeper [OF h1 h2 h3 h4 h5] ex
  have found: "(2::int) < int (length exDepths) \<and> stepDepth (at exDepths 2) \<le> 1" by blast
  have g2: "(0::int) \<le> 4" by simp
  have g3: "4 < int (length exDepths)" by (simp add: exDepths_def)
  have g4: "0 = stepDepth (at exDepths 4)" by code_simp
  have none: "\<not> (\<exists>j. 4 < j \<and> j < int (length exDepths) \<and> stepDepth (at exDepths j) \<le> 0)"
    by (simp add: exDepths_def)
  from stepOver_first_not_deeper [OF h1 g2 g3 g4 refl] none
  have last: "sourceStepOverIndex exDepths 4 = int (length exDepths) - 1" by blast
  from h1 h2 h3 h4 h5 ex found none last show ?thesis by simp
qed

section \<open>Step Out\<close>

lemma sourceStepOutLoop_cases:
  "(i \<le> sourceStepOutLoop stps d i \<and> sourceStepOutLoop stps d i < int (length stps)
      \<and> stepDepth (at stps (sourceStepOutLoop stps d i)) < d
      \<and> (\<forall>k. i \<le> k \<and> k < sourceStepOutLoop stps d i \<longrightarrow> d \<le> stepDepth (at stps k)))
   \<or> ((\<forall>k. i \<le> k \<and> k < int (length stps) \<longrightarrow> d \<le> stepDepth (at stps k))
      \<and> sourceStepOutLoop stps d i = max 0 (int (length stps) - 1))"
proof (induction stps d i rule: sourceStepOutLoop.induct)
  case (1 stps d i)
  consider (stop) "\<not> i < int (length stps)"
    | (hit) "i < int (length stps)" "stepDepth (at stps i) < d"
    | (go) "i < int (length stps)" "\<not> stepDepth (at stps i) < d"
    by blast
  then show ?case
  proof cases
    case stop
    then show ?thesis by (simp add: sourceStepOutLoop.simps [of stps d i])
  next
    case hit
    then show ?thesis by (simp add: sourceStepOutLoop.simps [of stps d i])
  next
    case go
    have eq: "sourceStepOutLoop stps d i = sourceStepOutLoop stps d (i + 1)"
      using go by (simp add: sourceStepOutLoop.simps [of stps d i])
    have here: "d \<le> stepDepth (at stps i)" using go(2) by simp
    from "1.IH" [OF go] show ?thesis
      unfolding eq using here by (metis add1_zle_eq order_le_less)
  qed
qed

text \<open>
  C4. From an in-range index \<open>i\<close> of a non-empty step list, with \<open>d\<close> the call depth
  at \<open>i\<close>, Step Out returns the smallest later index whose step has call depth strictly
  below \<open>d\<close>; when there is none it returns the last index. So a result whose depth
  is \<open>d\<close> or more is the last index, returned because no shallower step follows.
\<close>

theorem stepOut_first_shallower:
  assumes "stps \<noteq> []" and "0 \<le> i" and "i < int (length stps)"
    and "d = stepDepth (at stps i)" and "r = sourceStepOutIndex stps i"
  shows "((\<exists>j. i < j \<and> j < int (length stps) \<and> stepDepth (at stps j) < d) \<longrightarrow>
            i < r \<and> r < int (length stps) \<and> stepDepth (at stps r) < d
            \<and> (\<forall>j. i < j \<and> j < r \<longrightarrow> d \<le> stepDepth (at stps j)))
       \<and> (\<not> (\<exists>j. i < j \<and> j < int (length stps) \<and> stepDepth (at stps j) < d) \<longrightarrow>
            r = int (length stps) - 1)
       \<and> (d \<le> stepDepth (at stps r) \<longrightarrow>
            r = int (length stps) - 1
            \<and> \<not> (\<exists>j. i < j \<and> j < int (length stps) \<and> stepDepth (at stps j) < d))"
proof -
  have len: "max 0 (int (length stps) - 1) = int (length stps) - 1"
    using assms(1) by (cases stps) simp_all
  have r: "r = sourceStepOutLoop stps d (i + 1)"
    using assms(4,5) by (simp add: sourceStepOutIndex_def)
  let ?E = "\<exists>j. i < j \<and> j < int (length stps) \<and> stepDepth (at stps j) < d"
  have found: "i < r \<and> r < int (length stps) \<and> stepDepth (at stps r) < d
      \<and> (\<forall>j. i < j \<and> j < r \<longrightarrow> d \<le> stepDepth (at stps j))" if "?E"
  proof -
    from that obtain j where j: "i + 1 \<le> j" "j < int (length stps)" "stepDepth (at stps j) < d"
      by (metis add1_zle_eq)
    from sourceStepOutLoop_cases [of "i + 1" stps d] j
    have "i + 1 \<le> r \<and> r < int (length stps) \<and> stepDepth (at stps r) < d
        \<and> (\<forall>k. i + 1 \<le> k \<and> k < r \<longrightarrow> d \<le> stepDepth (at stps k))"
      unfolding r by (metis not_le)
    then show ?thesis by simp
  qed
  have missing: "r = int (length stps) - 1" if "\<not> ?E"
  proof -
    from sourceStepOutLoop_cases [of "i + 1" stps d]
    have "r = max 0 (int (length stps) - 1)"
      unfolding r using that by (metis add1_zle_eq)
    with len show ?thesis by simp
  qed
  from found missing show ?thesis by (metis not_le)
qed

theorem stepOut_first_shallower_witness:
  "exDepths \<noteq> [] \<and> (0::int) \<le> 2 \<and> 2 < int (length exDepths)
   \<and> 1 = stepDepth (at exDepths 2) \<and> 4 = sourceStepOutIndex exDepths 2
   \<and> (\<exists>j. 2 < j \<and> j < int (length exDepths) \<and> stepDepth (at exDepths j) < 1)
   \<and> (4::int) < int (length exDepths) \<and> stepDepth (at exDepths 4) < 1
   \<and> \<not> (\<exists>j. 0 < j \<and> j < int (length exDepths) \<and> stepDepth (at exDepths j) < 0)
   \<and> sourceStepOutIndex exDepths 0 = int (length exDepths) - 1"
proof -
  have h1: "exDepths \<noteq> []" by (simp add: exDepths_def)
  have h2: "(0::int) \<le> 2" by simp
  have h3: "2 < int (length exDepths)" by (simp add: exDepths_def)
  have h4: "1 = stepDepth (at exDepths 2)" by code_simp
  have h5: "4 = sourceStepOutIndex exDepths 2" by code_simp
  have ex: "\<exists>j. 2 < j \<and> j < int (length exDepths) \<and> stepDepth (at exDepths j) < 1"
    by (rule exI [of _ 4]) (simp add: exDepths_def exStep_def at_def stepDepth_def)
  from stepOut_first_shallower [OF h1 h2 h3 h4 h5] ex
  have found: "(4::int) < int (length exDepths) \<and> stepDepth (at exDepths 4) < 1" by blast
  have g2: "(0::int) \<le> 0" by simp
  have g3: "0 < int (length exDepths)" by (simp add: exDepths_def)
  have g4: "0 = stepDepth (at exDepths 0)" by code_simp
  have depths: "map (\<lambda>j. stepDepth (at exDepths (int j))) [0 ..< length exDepths] = [0, 1, 1, 2, 0]"
    by code_simp
  have none: "\<not> (\<exists>j. 0 < j \<and> j < int (length exDepths) \<and> stepDepth (at exDepths j) < 0)"
  proof
    assume "\<exists>j. 0 < j \<and> j < int (length exDepths) \<and> stepDepth (at exDepths j) < 0"
    then obtain j where j: "0 < j" "j < int (length exDepths)" "stepDepth (at exDepths j) < 0"
      by blast
    have "stepDepth (at exDepths (int (nat j))) \<in> set [0, 1, 1, 2, 0]"
      unfolding depths [symmetric] using j(1,2) by (intro image_eqI [where x = "nat j"] | simp)+
    with j show False by simp
  qed
  from stepOut_first_shallower [OF h1 g2 g3 g4 refl] none
  have last: "sourceStepOutIndex exDepths 0 = int (length exDepths) - 1" by blast
  from h1 h2 h3 h4 h5 ex found none last show ?thesis by simp
qed

section \<open>What the synchroniser leaves alone\<close>

lemma syncOpcodeFromSource_frame:
  "trace (syncOpcodeFromSource s) = trace s
   \<and> mode (dbg (syncOpcodeFromSource s)) = mode (dbg s)
   \<and> sourceStep (dbg (syncOpcodeFromSource s)) = sourceStep (dbg s)
   \<and> breakpoints (dbg (syncOpcodeFromSource s)) = breakpoints (dbg s)"
  by (simp add: syncOpcodeFromSource_def Let_def split: option.splits)

lemma syncSourceFromOpcode_frame:
  "trace (syncSourceFromOpcode s) = trace s
   \<and> mode (dbg (syncSourceFromOpcode s)) = mode (dbg s)
   \<and> opcodeStep (dbg (syncSourceFromOpcode s)) = opcodeStep (dbg s)
   \<and> breakpoints (dbg (syncSourceFromOpcode s)) = breakpoints (dbg s)"
  by (simp add: syncSourceFromOpcode_def Let_def split: option.splits)

section \<open>Continue\<close>

text \<open>
  The scan of \<open>continueToBreakpoint\<close> either stops at the first index from \<open>k\<close> on
  whose step is executing and has a truthy mapped line in the breakpoint set, or there is
  no such index and it yields the last index.
\<close>

lemma continueLoop_cases:
  "(\<exists>r. continueLoop srcs bps k = int r \<and> k \<le> r \<and> r < length srcs
        \<and> is_executing (srcs ! r)
        \<and> (\<exists>ln. mappingLine (mapping (srcs ! r)) = Some ln \<and> ln \<noteq> 0 \<and> ln \<in> bps)
        \<and> (\<forall>j. k \<le> j \<and> j < r \<longrightarrow>
              \<not> (is_executing (srcs ! j)
                 \<and> (\<exists>ln. mappingLine (mapping (srcs ! j)) = Some ln \<and> ln \<noteq> 0 \<and> ln \<in> bps))))
   \<or> ((\<forall>j. k \<le> j \<and> j < length srcs \<longrightarrow>
              \<not> (is_executing (srcs ! j)
                 \<and> (\<exists>ln. mappingLine (mapping (srcs ! j)) = Some ln \<and> ln \<noteq> 0 \<and> ln \<in> bps)))
      \<and> continueLoop srcs bps k = int (length srcs) - 1)"
  (is "?P srcs bps k")
proof (induction srcs bps k rule: continueLoop.induct)
  case (1 srcs bps k)
  let ?hit = "\<lambda>j. is_executing (srcs ! j)
     \<and> (\<exists>ln. mappingLine (mapping (srcs ! j)) = Some ln \<and> ln \<noteq> 0 \<and> ln \<in> bps)"
  show ?case
  proof (cases "k < length srcs")
    case False
    then show ?thesis by (simp add: continueLoop.simps [of srcs bps k])
  next
    case inr: True
    show ?thesis
    proof (cases "?hit k")
      case True
      then have "continueLoop srcs bps k = int k"
        using inr by (auto simp: continueLoop.simps [of srcs bps k])
      with True inr show ?thesis by auto
    next
      case False
      have eq: "continueLoop srcs bps k = continueLoop srcs bps (Suc k)"
        using inr False by (auto simp: continueLoop.simps [of srcs bps k] split: option.splits)
      have ih: "?P srcs bps (Suc k)"
      proof (cases "is_executing (srcs ! k)")
        case nex: False
        from "1.IH"(1) [OF inr] nex show ?thesis by simp
      next
        case ex: True
        show ?thesis
        proof (cases "mappingLine (mapping (srcs ! k))")
          case None
          from "1.IH"(2) [OF inr _ None] ex show ?thesis by simp
        next
          case (Some ln)
          with False ex have "\<not> (ln \<noteq> 0 \<and> ln \<in> bps)" by simp
          from "1.IH"(3) [OF inr _ Some this] ex show ?thesis by simp
        qed
      qed
      have split: "\<And>j. k \<le> j \<Longrightarrow> j = k \<or> Suc k \<le> j" by arith
      from ih consider
        (found) r where "continueLoop srcs bps (Suc k) = int r" "Suc k \<le> r" "r < length srcs"
          "?hit r" "\<forall>j. Suc k \<le> j \<and> j < r \<longrightarrow> \<not> ?hit j"
        | (none) "\<forall>j. Suc k \<le> j \<and> j < length srcs \<longrightarrow> \<not> ?hit j"
          "continueLoop srcs bps (Suc k) = int (length srcs) - 1"
        by blast
      then show ?thesis
      proof cases
        case found
        have "\<forall>j. k \<le> j \<and> j < r \<longrightarrow> \<not> ?hit j"
          using found(5) False split by blast
        with found(1-4) have "continueLoop srcs bps k = int r \<and> k \<le> r \<and> r < length srcs
            \<and> ?hit r \<and> (\<forall>j. k \<le> j \<and> j < r \<longrightarrow> \<not> ?hit j)"
          unfolding eq by simp
        then show ?thesis by blast
      next
        case none
        have "\<forall>j. k \<le> j \<and> j < length srcs \<longrightarrow> \<not> ?hit j"
          using none(1) False split by blast
        with none(2) show ?thesis unfolding eq by blast
      qed
    qed
  qed
qed


lemma continueToBreakpoint_source:
  assumes "trace s = Some tr" and "getSourceSteps (Some tr) \<noteq> []" and "mode (dbg s) = Source"
  shows "continueToBreakpoint s =
     ((if breakpoints (dbg s) = {} then int (length (getSourceSteps (Some tr))) - 1
       else continueLoop (getSourceSteps (Some tr)) (breakpoints (dbg s))
              (nat (clamp (sourceStep (dbg s)) 0 (int (length (getSourceSteps (Some tr))) - 1) + 1))), s)"
  using assms by (simp add: continueToBreakpoint_def Let_def)

lemma continueExecution_source:
  assumes "trace st = Some tr" and "getSourceSteps (Some tr) \<noteq> []"
  shows "sourceStep (dbg (continueExecution st)) =
       (if breakpoints (dbg st) = {} then int (length (getSourceSteps (Some tr))) - 1
        else continueLoop (getSourceSteps (Some tr)) (breakpoints (dbg st))
               (nat (clamp (sourceStep (dbg st)) 0 (int (length (getSourceSteps (Some tr))) - 1) + 1)))"
    and "mode (dbg (continueExecution st)) = Source"
proof -
  let ?st1 = "st\<lparr>dbg := (dbg st)\<lparr>mode := Source\<rparr>\<rparr>"
  have c: "continueToBreakpoint ?st1 =
     ((if breakpoints (dbg st) = {} then int (length (getSourceSteps (Some tr))) - 1
       else continueLoop (getSourceSteps (Some tr)) (breakpoints (dbg st))
              (nat (clamp (sourceStep (dbg st)) 0 (int (length (getSourceSteps (Some tr))) - 1) + 1))), ?st1)"
    using continueToBreakpoint_source [of ?st1 tr] assms by simp
  have e: "continueExecution st =
      syncOpcodeFromSource ((snd (continueToBreakpoint ?st1))
         \<lparr>dbg := (dbg (snd (continueToBreakpoint ?st1)))\<lparr>sourceStep := fst (continueToBreakpoint ?st1)\<rparr>\<rparr>)"
    using assms by (simp add: continueExecution_def Let_def)
  show "sourceStep (dbg (continueExecution st)) =
       (if breakpoints (dbg st) = {} then int (length (getSourceSteps (Some tr))) - 1
        else continueLoop (getSourceSteps (Some tr)) (breakpoints (dbg st))
               (nat (clamp (sourceStep (dbg st)) 0 (int (length (getSourceSteps (Some tr))) - 1) + 1)))"
    unfolding e c by (simp add: syncOpcodeFromSource_frame)
  show "mode (dbg (continueExecution st)) = Source"
    unfolding e c by (simp add: syncOpcodeFromSource_frame)
qed

text \<open>
  C5. With a trace loaded: when the source sequence is non-empty, the current source index
  \<open>cur\<close> is in range and 0 is no breakpoint (the gutter never adds line 0), Continue
  moves the source cursor to the last index when the breakpoint set is empty, and
  otherwise to the smallest index \<open>k > cur\<close> whose step is executing and whose mapped
  line is in the breakpoint set, or to the last index when there is no such step; this is
  the value \<open>continueToBreakpoint\<close> returns in source mode. When the source sequence
  is empty, Continue switches to opcode mode and puts the opcode cursor on
  \<open>max 0 (length - 1)\<close>, the last opcode index when there is one.
\<close>

theorem continue_stops_at_first_breakpoint:
  assumes "trace st = Some tr"
    and "srcs = getSourceSteps (Some tr)" and "ops = getOpcodeSteps (Some tr)"
    and "cur = sourceStep (dbg st)" and "bps = breakpoints (dbg st)"
    and "hit = (\<lambda>k. \<exists>s ln. at srcs k = Some s \<and> is_executing s
                    \<and> mappingLine (mapping s) = Some ln \<and> ln \<in> bps)"
    and "r = sourceStep (dbg (continueExecution st))"
  shows "(srcs \<noteq> [] \<and> 0 \<le> cur \<and> cur < int (length srcs) \<and> 0 \<notin> bps \<longrightarrow>
            mode (dbg (continueExecution st)) = Source
          \<and> (mode (dbg st) = Source \<longrightarrow> fst (continueToBreakpoint st) = r)
          \<and> (bps = {} \<longrightarrow> r = int (length srcs) - 1)
          \<and> (bps \<noteq> {} \<and> (\<exists>k. cur < k \<and> k < int (length srcs) \<and> hit k) \<longrightarrow>
                cur < r \<and> r < int (length srcs) \<and> hit r \<and> (\<forall>k. cur < k \<and> k < r \<longrightarrow> \<not> hit k))
          \<and> (bps \<noteq> {} \<and> \<not> (\<exists>k. cur < k \<and> k < int (length srcs) \<and> hit k) \<longrightarrow>
                r = int (length srcs) - 1))
       \<and> (srcs = [] \<longrightarrow>
            mode (dbg (continueExecution st)) = Opcode
          \<and> opcodeStep (dbg (continueExecution st)) = max 0 (int (length ops) - 1)
          \<and> (ops \<noteq> [] \<longrightarrow> opcodeStep (dbg (continueExecution st)) = int (length ops) - 1))"
proof (rule conjI; rule impI)
  assume "srcs = []"
  then have e: "continueExecution st =
      st\<lparr>dbg := (dbg st)\<lparr>mode := Opcode, opcodeStep := max 0 (int (length ops) - 1)\<rparr>\<rparr>"
    using assms(1-3) by (simp add: continueExecution_def Let_def)
  have o1: "mode (dbg (continueExecution st)) = Opcode" by (simp add: e)
  have o2: "opcodeStep (dbg (continueExecution st)) = max 0 (int (length ops) - 1)"
    by (simp add: e)
  have o3: "opcodeStep (dbg (continueExecution st)) = int (length ops) - 1" if "ops \<noteq> []"
    using that o2 by (cases ops) simp_all
  from o1 o2 o3
  show "mode (dbg (continueExecution st)) = Opcode
      \<and> opcodeStep (dbg (continueExecution st)) = max 0 (int (length ops) - 1)
      \<and> (ops \<noteq> [] \<longrightarrow> opcodeStep (dbg (continueExecution st)) = int (length ops) - 1)"
    by blast
next
  assume pre: "srcs \<noteq> [] \<and> 0 \<le> cur \<and> cur < int (length srcs) \<and> 0 \<notin> bps"
  then have ne: "getSourceSteps (Some tr) \<noteq> []" using assms(2) by simp
  have cl: "clamp cur 0 (int (length srcs) - 1) = cur"
    using pre by (simp add: clamp_def)
  have r: "r = (if bps = {} then int (length srcs) - 1
                else continueLoop srcs bps (nat (cur + 1)))"
    using continueExecution_source(1) [OF assms(1) ne] assms(2,4,5,7) cl by simp
  have s1: "mode (dbg (continueExecution st)) = Source"
    by (rule continueExecution_source(2) [OF assms(1) ne])
  have s2: "fst (continueToBreakpoint st) = r" if "mode (dbg st) = Source"
    using continueToBreakpoint_source [OF assms(1) ne that] assms(2,4,5) cl r by simp
  have s3: "r = int (length srcs) - 1" if "bps = {}"
    using r that by simp
  have hit_iff: "hit k \<longleftrightarrow> is_executing (srcs ! nat k)
        \<and> (\<exists>ln. mappingLine (mapping (srcs ! nat k)) = Some ln \<and> ln \<noteq> 0 \<and> ln \<in> bps)"
    if "0 \<le> k" "k < int (length srcs)" for k
    using that pre unfolding assms(6) by (auto simp: at_def)
  let ?chit = "\<lambda>j. is_executing (srcs ! j)
        \<and> (\<exists>ln. mappingLine (mapping (srcs ! j)) = Some ln \<and> ln \<noteq> 0 \<and> ln \<in> bps)"
  from continueLoop_cases [of srcs bps "nat (cur + 1)"] consider
    (found) q where "continueLoop srcs bps (nat (cur + 1)) = int q" "nat (cur + 1) \<le> q"
      "q < length srcs" "?chit q" "\<forall>j. nat (cur + 1) \<le> j \<and> j < q \<longrightarrow> \<not> ?chit j"
    | (none) "\<forall>j. nat (cur + 1) \<le> j \<and> j < length srcs \<longrightarrow> \<not> ?chit j"
      "continueLoop srcs bps (nat (cur + 1)) = int (length srcs) - 1"
    by blast
  then have both:
    "(bps \<noteq> {} \<and> (\<exists>k. cur < k \<and> k < int (length srcs) \<and> hit k) \<longrightarrow>
        cur < r \<and> r < int (length srcs) \<and> hit r \<and> (\<forall>k. cur < k \<and> k < r \<longrightarrow> \<not> hit k))
     \<and> (bps \<noteq> {} \<and> \<not> (\<exists>k. cur < k \<and> k < int (length srcs) \<and> hit k) \<longrightarrow>
        r = int (length srcs) - 1)"
  proof cases
    case found
    have rq: "bps \<noteq> {} \<Longrightarrow> r = int q" using r found(1) by simp
    have q1: "cur < int q" using found(2) pre by linarith
    have q2: "int q < int (length srcs)" using found(3) by simp
    have hq: "hit (int q)" using hit_iff [of "int q"] found(3,4) by simp
    have before: "\<not> hit k" if "cur < k" "k < int q" for k
    proof -
      have "nat (cur + 1) \<le> nat k \<and> nat k < q" using that pre by linarith
      with found(5) have "\<not> ?chit (nat k)" by blast
      moreover have "0 \<le> k" "k < int (length srcs)" using that pre found(3) by linarith+
      ultimately show ?thesis using hit_iff [of k] by simp
    qed
    have ex: "\<exists>k. cur < k \<and> k < int (length srcs) \<and> hit k"
      using q1 q2 hq by blast
    show ?thesis using rq q1 q2 hq before ex by auto
  next
    case none
    have no: "\<not> hit k" if "cur < k" "k < int (length srcs)" for k
    proof -
      have "nat (cur + 1) \<le> nat k \<and> nat k < length srcs" using that pre by linarith
      with none(1) have "\<not> ?chit (nat k)" by blast
      moreover have "0 \<le> k" using that pre by linarith
      ultimately show ?thesis using hit_iff [of k] that by simp
    qed
    have "bps \<noteq> {} \<Longrightarrow> r = int (length srcs) - 1" using r none(2) by simp
    with no show ?thesis by blast
  qed
  from s1 s2 s3 both
  show "mode (dbg (continueExecution st)) = Source
          \<and> (mode (dbg st) = Source \<longrightarrow> fst (continueToBreakpoint st) = r)
          \<and> (bps = {} \<longrightarrow> r = int (length srcs) - 1)
          \<and> (bps \<noteq> {} \<and> (\<exists>k. cur < k \<and> k < int (length srcs) \<and> hit k) \<longrightarrow>
                cur < r \<and> r < int (length srcs) \<and> hit r \<and> (\<forall>k. cur < k \<and> k < r \<longrightarrow> \<not> hit k))
          \<and> (bps \<noteq> {} \<and> \<not> (\<exists>k. cur < k \<and> k < int (length srcs) \<and> hit k) \<longrightarrow>
                r = int (length srcs) - 1)"
    by blast
qed




theorem continue_stops_at_first_breakpoint_witness:
  "getSourceSteps (trace exBpState) \<noteq> []
   \<and> 0 \<le> sourceStep (dbg exBpState)
   \<and> sourceStep (dbg exBpState) < int (length (getSourceSteps (trace exBpState)))
   \<and> 0 \<notin> breakpoints (dbg exBpState) \<and> breakpoints (dbg exBpState) \<noteq> {}
   \<and> mode (dbg (continueExecution exBpState)) = Source
   \<and> fst (continueToBreakpoint exBpState) = 4
   \<and> sourceStep (dbg (continueExecution exBpState)) = 4
   \<and> getSourceSteps (trace exOpsOnly) = []
   \<and> mode (dbg (continueExecution exOpsOnly)) = Opcode
   \<and> opcodeStep (dbg (continueExecution exOpsOnly)) = 4"
proof -
  let ?tr = "\<lparr>opcode_steps = None, source_steps = Some exBps, steps = None\<rparr>"
  let ?hit = "\<lambda>k. \<exists>s ln. at exBps k = Some s \<and> is_executing s
                    \<and> mappingLine (mapping s) = Some ln \<and> ln \<in> {9::int}"
  have a1: "trace exBpState = Some ?tr" by (simp add: exBpState_def)
  have a2: "exBps = getSourceSteps (Some ?tr)" by (simp add: getSourceSteps_def exBps_def)
  have a4: "0 = sourceStep (dbg exBpState)" by (simp add: exBpState_def exDbg_def)
  have a5: "{9} = breakpoints (dbg exBpState)" by (simp add: exBpState_def exDbg_def)
  have a7: "4 = sourceStep (dbg (continueExecution exBpState))" by code_simp
  note T = continue_stops_at_first_breakpoint [OF a1 a2 refl a4 a5 refl a7]
  have pre: "exBps \<noteq> [] \<and> (0::int) \<le> 0 \<and> 0 < int (length exBps) \<and> 0 \<notin> {9::int}"
    by (simp add: exBps_def)
  have src: "mode (dbg exBpState) = Source" by (simp add: exBpState_def exDbg_def)
  from T pre src have p1: "mode (dbg (continueExecution exBpState)) = Source
      \<and> fst (continueToBreakpoint exBpState) = 4" by blast
  let ?tr2 = "\<lparr>opcode_steps = Some exDepths, source_steps = Some [], steps = None\<rparr>"
  have b1: "trace exOpsOnly = Some ?tr2" by (simp add: exOpsOnly_def)
  have b2: "[] = getSourceSteps (Some ?tr2)" by (simp add: getSourceSteps_def)
  have b3: "exDepths = getOpcodeSteps (Some ?tr2)" by (simp add: getOpcodeSteps_def exDepths_def)
  note U = continue_stops_at_first_breakpoint [OF b1 b2 b3 refl refl refl refl]
  have "exDepths \<noteq> []" "int (length exDepths) - 1 = 4" by (simp_all add: exDepths_def)
  with U have p2: "mode (dbg (continueExecution exOpsOnly)) = Opcode
      \<and> opcodeStep (dbg (continueExecution exOpsOnly)) = 4" by simp
  have c1: "getSourceSteps (trace exBpState) = exBps" using a1 a2 by simp
  have c2: "breakpoints (dbg exBpState) = {9}" using a5 by simp
  have c3: "getSourceSteps (trace exOpsOnly) = []" using b1 b2 by simp
  from p1 p2 pre a4 a7 show ?thesis unfolding c1 c2 c3 by simp
qed

section \<open>The searches never move back\<close>

lemma continueLoop_lower:
  "int k \<le> continueLoop srcs bps k \<or> continueLoop srcs bps k = int (length srcs) - 1"
  using continueLoop_cases [of srcs bps k] by auto

lemma sourceStepOverLoop_lower:
  "i \<le> sourceStepOverLoop stps d i
   \<or> sourceStepOverLoop stps d i = max 0 (int (length stps) - 1)"
  using sourceStepOverLoop_cases [of i stps d] by blast

lemma sourceStepOutLoop_lower:
  "i \<le> sourceStepOutLoop stps d i
   \<or> sourceStepOutLoop stps d i = max 0 (int (length stps) - 1)"
  using sourceStepOutLoop_cases [of i stps d] by blast

text \<open>
  C10. From an in-range index \<open>i\<close> of a non-empty source sequence, the Step Over search,
  the Step Out search and the continue-to-breakpoint search each return an index that is
  at least \<open>i\<close>. For the continue search \<open>i\<close> is the stored source index in source
  mode; in any mode its result is at least the index it starts from (the source index
  after its own resynchronisation, clamped), and Continue never lowers the stored source
  index.
\<close>

theorem searches_never_move_back:
  assumes "stps \<noteq> []" and "0 \<le> i" and "i < int (length stps)"
    and "trace st = Some tr" and "getSourceSteps (Some tr) = stps"
  shows "i \<le> sourceStepOverIndex stps i
       \<and> i \<le> sourceStepOutIndex stps i
       \<and> (mode (dbg st) = Source \<and> sourceStep (dbg st) = i \<longrightarrow>
            i \<le> fst (continueToBreakpoint st))
       \<and> clamp (sourceStep (dbg (snd (continueToBreakpoint st)))) 0 (int (length stps) - 1)
            \<le> fst (continueToBreakpoint st)
       \<and> (sourceStep (dbg st) = i \<longrightarrow> i \<le> sourceStep (dbg (continueExecution st)))"
proof -
  have len: "max 0 (int (length stps) - 1) = int (length stps) - 1"
    using assms(1) by (cases stps) simp_all
  have over: "i \<le> sourceStepOverIndex stps i"
    using sourceStepOverLoop_lower [of "i + 1" stps "stepDepth (at stps i)"] assms(3) len
    by (auto simp: sourceStepOverIndex_def)
  have out: "i \<le> sourceStepOutIndex stps i"
    using sourceStepOutLoop_lower [of "i + 1" stps "stepDepth (at stps i)"] assms(3) len
    by (auto simp: sourceStepOutIndex_def)
  have loop: "c \<le> continueLoop stps bps (nat (c + 1))"
    if "0 \<le> c" "c < int (length stps)" for c bps
    using continueLoop_lower [of "nat (c + 1)" stps bps] that by auto
  define st1 where "st1 = (if mode (dbg st) = Opcode then syncSourceFromOpcode st else st)"
  define start where "start = clamp (sourceStep (dbg st1)) 0 (int (length stps) - 1)"
  have range: "0 \<le> start \<and> start < int (length stps)"
    using assms(1) unfolding start_def clamp_def by (cases stps) auto
  have ctb: "continueToBreakpoint st =
      ((if breakpoints (dbg st1) = {} then int (length stps) - 1
        else continueLoop stps (breakpoints (dbg st1)) (nat (start + 1))), st1)"
    using assms(1,4,5) by (simp add: continueToBreakpoint_def Let_def st1_def start_def)
  have general: "clamp (sourceStep (dbg (snd (continueToBreakpoint st)))) 0 (int (length stps) - 1)
      \<le> fst (continueToBreakpoint st)"
    using range loop [of start "breakpoints (dbg st1)"] unfolding ctb
    by (simp add: start_def [symmetric])
  have src: "i \<le> fst (continueToBreakpoint st)"
    if "mode (dbg st) = Source \<and> sourceStep (dbg st) = i"
  proof -
    have "st1 = st" using that by (simp add: st1_def)
    then have "start = i" using that assms(2,3) by (simp add: start_def clamp_def)
    with general show ?thesis unfolding ctb by (simp add: start_def [symmetric])
  qed
  have cont: "i \<le> sourceStep (dbg (continueExecution st))" if "sourceStep (dbg st) = i"
  proof -
    have "clamp i 0 (int (length stps) - 1) = i" using assms(2,3) by (simp add: clamp_def)
    then show ?thesis
      using continueExecution_source(1) [OF assms(4), unfolded assms(5), OF assms(1)]
        loop [OF assms(2,3)] assms(3) that by simp
  qed
  from over out src general cont show ?thesis by blast
qed

theorem searches_never_move_back_witness:
  "exBps \<noteq> [] \<and> (0::int) \<le> 1 \<and> 1 < int (length exBps)
   \<and> getSourceSteps (trace exBpState) = exBps
   \<and> 1 \<le> sourceStepOverIndex exBps 1 \<and> 1 \<le> sourceStepOutIndex exBps 1
   \<and> sourceStep (dbg (exBpState\<lparr>dbg := (dbg exBpState)\<lparr>sourceStep := 1\<rparr>\<rparr>)) = 1
   \<and> 1 \<le> fst (continueToBreakpoint (exBpState\<lparr>dbg := (dbg exBpState)\<lparr>sourceStep := 1\<rparr>\<rparr>))"
proof -
  let ?tr = "\<lparr>opcode_steps = None, source_steps = Some exBps, steps = None\<rparr>"
  let ?st = "exBpState\<lparr>dbg := (dbg exBpState)\<lparr>sourceStep := 1\<rparr>\<rparr>"
  have h1: "exBps \<noteq> []" by (simp add: exBps_def)
  have h2: "(0::int) \<le> 1" by simp
  have h3: "1 < int (length exBps)" by (simp add: exBps_def)
  have h4: "trace ?st = Some ?tr" by (simp add: exBpState_def)
  have h5: "getSourceSteps (Some ?tr) = exBps" by (simp add: getSourceSteps_def exBps_def)
  have m: "mode (dbg ?st) = Source \<and> sourceStep (dbg ?st) = 1"
    by (simp add: exBpState_def exDbg_def)
  have g: "getSourceSteps (trace exBpState) = exBps"
    using h5 by (simp add: exBpState_def)
  from searches_never_move_back [OF h1 h2 h3 h4 h5] m h1 h2 h3 g
  show ?thesis by simp
qed

section \<open>From an opcode index to a source index\<close>

text \<open>
  The scan keeps \<open>best\<close> when the step at \<open>i\<close> is already after the target (or
  there is no step at \<open>i\<close>); otherwise it ends on an index \<open>r \<ge> i\<close> such that the
  steps from \<open>i\<close> to \<open>r\<close> are not after the target and the step after \<open>r\<close>, if
  any, is.
\<close>

lemma sourceIndexLoop_cases:
  "(sourceIndexLoop srcs t i best = best \<and> (i < length srcs \<longrightarrow> t < pcOf (srcs ! i)))
   \<or> (i \<le> sourceIndexLoop srcs t i best \<and> sourceIndexLoop srcs t i best < length srcs
      \<and> (\<forall>j. i \<le> j \<and> j \<le> sourceIndexLoop srcs t i best \<longrightarrow> pcOf (srcs ! j) \<le> t)
      \<and> (Suc (sourceIndexLoop srcs t i best) < length srcs \<longrightarrow>
            t < pcOf (srcs ! Suc (sourceIndexLoop srcs t i best))))"
proof (induction srcs t i best rule: sourceIndexLoop.induct)
  case (1 srcs t i best)
  show ?case
  proof (cases "i < length srcs \<and> \<not> t < pcOf (srcs ! i)")
    case False
    then have "sourceIndexLoop srcs t i best = best"
      by (auto simp: sourceIndexLoop.simps [of srcs t i best])
    with False show ?thesis by auto
  next
    case True
    then have eq: "sourceIndexLoop srcs t i best = sourceIndexLoop srcs t (Suc i) i"
      by (simp add: sourceIndexLoop.simps [of srcs t i best])
    have here: "pcOf (srcs ! i) \<le> t" using True by simp
    have split: "\<And>j. i \<le> j \<Longrightarrow> j = i \<or> Suc i \<le> j" by arith
    from True have ih: "(sourceIndexLoop srcs t (Suc i) i = i
           \<and> (Suc i < length srcs \<longrightarrow> t < pcOf (srcs ! Suc i)))
       \<or> (Suc i \<le> sourceIndexLoop srcs t (Suc i) i
          \<and> sourceIndexLoop srcs t (Suc i) i < length srcs
          \<and> (\<forall>j. Suc i \<le> j \<and> j \<le> sourceIndexLoop srcs t (Suc i) i \<longrightarrow> pcOf (srcs ! j) \<le> t)
          \<and> (Suc (sourceIndexLoop srcs t (Suc i) i) < length srcs \<longrightarrow>
                t < pcOf (srcs ! Suc (sourceIndexLoop srcs t (Suc i) i))))"
      using "1.IH" by simp
    then show ?thesis
    proof
      assume a: "sourceIndexLoop srcs t (Suc i) i = i
           \<and> (Suc i < length srcs \<longrightarrow> t < pcOf (srcs ! Suc i))"
      with True here show ?thesis unfolding eq by auto
    next
      assume b: "Suc i \<le> sourceIndexLoop srcs t (Suc i) i
          \<and> sourceIndexLoop srcs t (Suc i) i < length srcs
          \<and> (\<forall>j. Suc i \<le> j \<and> j \<le> sourceIndexLoop srcs t (Suc i) i \<longrightarrow> pcOf (srcs ! j) \<le> t)
          \<and> (Suc (sourceIndexLoop srcs t (Suc i) i) < length srcs \<longrightarrow>
                t < pcOf (srcs ! Suc (sourceIndexLoop srcs t (Suc i) i)))"
      then have "\<forall>j. i \<le> j \<and> j \<le> sourceIndexLoop srcs t (Suc i) i \<longrightarrow> pcOf (srcs ! j) \<le> t"
        using here split by blast
      with b show ?thesis unfolding eq by simp
    qed
  qed
qed

text \<open>With non-decreasing pcs the scan from 0 ends on the last step not after the target.\<close>

lemma sourceIndexLoop_last:
  assumes "sorted (map pcOf srcs)"
  shows "((\<exists>j < length srcs. pcOf (srcs ! j) \<le> t) \<longrightarrow>
            sourceIndexLoop srcs t 0 0 < length srcs
          \<and> pcOf (srcs ! sourceIndexLoop srcs t 0 0) \<le> t
          \<and> (\<forall>j < length srcs. pcOf (srcs ! j) \<le> t \<longrightarrow> j \<le> sourceIndexLoop srcs t 0 0))
       \<and> (\<not> (\<exists>j < length srcs. pcOf (srcs ! j) \<le> t) \<longrightarrow> sourceIndexLoop srcs t 0 0 = 0)"
proof -
  let ?r = "sourceIndexLoop srcs t 0 0"
  have mono: "pcOf (srcs ! a) \<le> pcOf (srcs ! b)" if "a \<le> b" "b < length srcs" for a b
    using sorted_nth_mono [OF assms, of a b] that by simp
  from sourceIndexLoop_cases [of srcs t 0 0]
  consider (stop) "?r = 0" "0 < length srcs \<longrightarrow> t < pcOf (srcs ! 0)"
    | (run) "?r < length srcs" "\<forall>j. j \<le> ?r \<longrightarrow> pcOf (srcs ! j) \<le> t"
        "Suc ?r < length srcs \<longrightarrow> t < pcOf (srcs ! Suc ?r)"
    by auto
  then show ?thesis
  proof cases
    case stop
    have "\<not> (\<exists>j < length srcs. pcOf (srcs ! j) \<le> t)"
    proof
      assume "\<exists>j < length srcs. pcOf (srcs ! j) \<le> t"
      then obtain j where j: "j < length srcs" "pcOf (srcs ! j) \<le> t" by blast
      with mono [of 0 j] stop(2) show False by auto
    qed
    with stop(1) show ?thesis by blast
  next
    case run
    have last: "j \<le> ?r" if "j < length srcs" "pcOf (srcs ! j) \<le> t" for j
    proof (rule ccontr)
      assume "\<not> j \<le> ?r"
      then have "Suc ?r \<le> j" by simp
      with mono [of "Suc ?r" j] that run(3) show False by auto
    qed
    have "pcOf (srcs ! ?r) \<le> t" using run(2) by simp
    with run(1) last show ?thesis by blast
  qed
qed

text \<open>
  C1. With a trace loaded whose source steps have non-decreasing pcs, let \<open>targetPc\<close> be
  the pc of the opcode step at the clamped \<open>opcodeIndex\<close> (0 when there is no opcode
  step). If some source step has a pc of at most \<open>targetPc\<close>,
  \<open>sourceIndexFromOpcodeIndex\<close> returns the index of the last such step; if none has,
  which includes the empty source sequence, it returns 0.
\<close>

theorem sourceIndex_is_last_not_after:
  assumes "trace st = Some tr"
    and "srcs = getSourceSteps (Some tr)" and "ops = getOpcodeSteps (Some tr)"
    and "sorted (map pcOf srcs)"
    and "targetPc = (case at ops (clamp opcodeIndex 0 (max 0 (int (length ops) - 1))) of
                       None \<Rightarrow> 0 | Some s \<Rightarrow> pcOf s)"
    and "r = sourceIndexFromOpcodeIndex st opcodeIndex"
  shows "((\<exists>j < length srcs. pcOf (srcs ! j) \<le> targetPc) \<longrightarrow>
            0 \<le> r \<and> nat r < length srcs \<and> pcOf (srcs ! nat r) \<le> targetPc
          \<and> (\<forall>j < length srcs. pcOf (srcs ! j) \<le> targetPc \<longrightarrow> int j \<le> r))
       \<and> (\<not> (\<exists>j < length srcs. pcOf (srcs ! j) \<le> targetPc) \<longrightarrow> r = 0)"
proof (cases "srcs = []")
  case True
  then have "r = 0"
    using assms(1,2,6) by (simp add: sourceIndexFromOpcodeIndex_def Let_def)
  with True show ?thesis by simp
next
  case False
  then have r: "r = int (sourceIndexLoop srcs targetPc 0 0)"
    using assms(1,2,3,5,6) by (simp add: sourceIndexFromOpcodeIndex_def Let_def)
  from sourceIndexLoop_last [OF assms(4), of targetPc] show ?thesis
    unfolding r by simp
qed

theorem sourceIndex_is_last_not_after_witness:
  "sorted (map pcOf (getSourceSteps (trace exSync)))
   \<and> (\<exists>j < length (getSourceSteps (trace exSync)). pcOf (getSourceSteps (trace exSync) ! j) \<le> 6)
   \<and> sourceIndexFromOpcodeIndex exSync 6 = 1
   \<and> pcOf (getSourceSteps (trace exSync) ! 1) \<le> 6
   \<and> sorted (map pcOf (getSourceSteps (trace exLate)))
   \<and> \<not> (\<exists>j < length (getSourceSteps (trace exLate)). pcOf (getSourceSteps (trace exLate) ! j) \<le> 1)
   \<and> sourceIndexFromOpcodeIndex exLate 1 = 0"
proof -
  let ?tr = "\<lparr>opcode_steps = Some (exPcs [0, 1, 2, 3, 4, 5, 6, 7, 8, 9]),
             source_steps = Some (exPcs [0, 4, 8]), steps = None\<rparr>"
  have h1: "trace exSync = Some ?tr" by (simp add: exSync_def)
  have h2: "exPcs [0, 4, 8] = getSourceSteps (Some ?tr)"
    by (simp add: getSourceSteps_def exPcs_def)
  have h3: "exPcs [0, 1, 2, 3, 4, 5, 6, 7, 8, 9] = getOpcodeSteps (Some ?tr)"
    by (simp add: getOpcodeSteps_def exPcs_def)
  have h4: "sorted (map pcOf (exPcs [0, 4, 8]))"
    by (simp add: exPcs_def exStep_def pcOf_def)
  have h5: "6 = (case at (exPcs [0, 1, 2, 3, 4, 5, 6, 7, 8, 9])
                        (clamp 6 0 (max 0 (int (length (exPcs [0, 1, 2, 3, 4, 5, 6, 7, 8, 9])) - 1))) of
                   None \<Rightarrow> 0 | Some s \<Rightarrow> pcOf s)"
    by (simp add: exPcs_def exStep_def pcOf_def at_def clamp_def)
  have h6: "1 = sourceIndexFromOpcodeIndex exSync 6" by code_simp
  have ex: "\<exists>j < length (exPcs [0, 4, 8]). pcOf (exPcs [0, 4, 8] ! j) \<le> 6"
    by (rule exI [of _ 0]) (simp add: exPcs_def exStep_def pcOf_def)
  have g: "getSourceSteps (trace exSync) = exPcs [0, 4, 8]" using h1 h2 by simp
  from sourceIndex_is_last_not_after [OF h1 h2 h3 h4 h5 h6] ex
  have found: "pcOf (exPcs [0, 4, 8] ! nat 1) \<le> 6" by blast
  have k1: "trace exLate = Some exLateTrace" by (simp add: exLate_def)
  have k2: "exPcs [2, 3] = getSourceSteps (Some exLateTrace)"
    by (simp add: getSourceSteps_def exLateTrace_def exPcs_def)
  have k3: "exPcs [0, 1, 2, 3] = getOpcodeSteps (Some exLateTrace)"
    by (simp add: getOpcodeSteps_def exLateTrace_def exPcs_def)
  have k4: "sorted (map pcOf (exPcs [2, 3]))" by (simp add: exPcs_def exStep_def pcOf_def)
  have k5: "1 = (case at (exPcs [0, 1, 2, 3])
                        (clamp 1 0 (max 0 (int (length (exPcs [0, 1, 2, 3])) - 1))) of
                   None \<Rightarrow> 0 | Some s \<Rightarrow> pcOf s)"
    by (simp add: exPcs_def exStep_def pcOf_def at_def clamp_def)
  have pcs: "map pcOf (exPcs [2, 3]) = [2, 3]" by (simp add: exPcs_def exStep_def pcOf_def)
  have none: "\<not> (\<exists>j < length (exPcs [2, 3]). pcOf (exPcs [2, 3] ! j) \<le> 1)"
  proof
    assume "\<exists>j < length (exPcs [2, 3]). pcOf (exPcs [2, 3] ! j) \<le> 1"
    then obtain j where j: "j < length (exPcs [2, 3])" "pcOf (exPcs [2, 3] ! j) \<le> 1" by blast
    from j(1) have "pcOf (exPcs [2, 3] ! j) \<in> set (map pcOf (exPcs [2, 3]))" by simp
    with j(2) show False unfolding pcs by auto
  qed
  have g': "getSourceSteps (trace exLate) = exPcs [2, 3]" using k1 k2 by simp
  from sourceIndex_is_last_not_after [OF k1 k2 k3 k4 k5 refl] none
  have zero: "sourceIndexFromOpcodeIndex exLate 1 = 0" by blast
  from ex h4 h6 found k4 none zero show ?thesis unfolding g g' by simp
qed

section \<open>Installing a trace\<close>

lemma syncOpcodeFromSource_value:
  assumes "trace s = Some tr"
    and "getSourceSteps (Some tr) \<noteq> []" and "getOpcodeSteps (Some tr) \<noteq> []"
    and "0 \<le> sourceStep (dbg s)" and "sourceStep (dbg s) < int (length (getSourceSteps (Some tr)))"
  shows "opcodeStep (dbg (syncOpcodeFromSource s)) =
           clamp (pcOf (getSourceSteps (Some tr) ! nat (sourceStep (dbg s)))) 0
                 (int (length (getOpcodeSteps (Some tr))) - 1)"
  using assms by (simp add: syncOpcodeFromSource_def Let_def clamp_def at_def)

lemma resetDbgCursor_fields:
  assumes "trace st = Some tr"
  shows "sourceStep (dbg (resetDbgCursor st)) = 0"
    and "opcodeStep (dbg (resetDbgCursor st)) =
           (if getSourceSteps (Some tr) \<noteq> [] \<and> getOpcodeSteps (Some tr) \<noteq> []
            then clamp (pcOf (getSourceSteps (Some tr) ! 0)) 0
                       (int (length (getOpcodeSteps (Some tr))) - 1)
            else 0)"
    and "mode (dbg (resetDbgCursor st)) =
           (if getSourceSteps (Some tr) \<noteq> [] then Source else Opcode)"
    and "breakpoints (dbg (resetDbgCursor st)) = breakpoints (dbg st)"
    and "trace (resetDbgCursor st) = Some tr"
proof -
  let ?st1 = "st\<lparr>dbg := (dbg st)\<lparr>sourceStep := 0, opcodeStep := 0,
                 mode := (if getSourceSteps (Some tr) \<noteq> [] then Source else Opcode)\<rparr>\<rparr>"
  have r: "resetDbgCursor st =
      (if getSourceSteps (Some tr) \<noteq> [] \<and> getOpcodeSteps (Some tr) \<noteq> []
       then syncOpcodeFromSource ?st1 else ?st1)"
    using assms by (simp add: resetDbgCursor_def Let_def)
  have t1: "trace ?st1 = Some tr" using assms by simp
  show "sourceStep (dbg (resetDbgCursor st)) = 0"
    unfolding r by (simp add: syncOpcodeFromSource_frame)
  show "mode (dbg (resetDbgCursor st)) =
           (if getSourceSteps (Some tr) \<noteq> [] then Source else Opcode)"
    unfolding r by (simp add: syncOpcodeFromSource_frame)
  show "breakpoints (dbg (resetDbgCursor st)) = breakpoints (dbg st)"
    unfolding r by (simp add: syncOpcodeFromSource_frame)
  show "trace (resetDbgCursor st) = Some tr"
    unfolding r using assms by (simp add: syncOpcodeFromSource_frame)
  show "opcodeStep (dbg (resetDbgCursor st)) =
           (if getSourceSteps (Some tr) \<noteq> [] \<and> getOpcodeSteps (Some tr) \<noteq> []
            then clamp (pcOf (getSourceSteps (Some tr) ! 0)) 0
                       (int (length (getOpcodeSteps (Some tr))) - 1)
            else 0)"
  proof (cases "getSourceSteps (Some tr) \<noteq> [] \<and> getOpcodeSteps (Some tr) \<noteq> []")
    case False
    then show ?thesis unfolding r by auto
  next
    case True
    then have "opcodeStep (dbg (syncOpcodeFromSource ?st1)) =
        clamp (pcOf (getSourceSteps (Some tr) ! nat (sourceStep (dbg ?st1)))) 0
              (int (length (getOpcodeSteps (Some tr))) - 1)"
      by (intro syncOpcodeFromSource_value [OF t1]) simp_all
    with True show ?thesis unfolding r by simp
  qed
qed

lemma activeSnapshot_frame:
  "trace (snd (activeSnapshot s)) = trace s
   \<and> breakpoints (dbg (snd (activeSnapshot s))) = breakpoints (dbg s)
   \<and> mode (dbg (snd (activeSnapshot s))) = mode (dbg s)"
  by (simp add: activeSnapshot_def setActiveStepIndex_def Let_def)

text \<open>
  C2 (as amended). Installing a trace (\<open>installTrace\<close>, and \<open>resetDbgCursor\<close> on a
  state that holds the trace) sets the source index to 0, sets the mode to source if
  source steps exist and to opcode otherwise, and leaves the breakpoint set as it was. The
  opcode index is set to the index synchronised with source step 0: the pc of the first
  source step clamped into \<open>[0, length opcodeSteps - 1]\<close> when both sequences are
  non-empty, and 0 otherwise.
\<close>

theorem install_resets_cursor:
  assumes "srcs = getSourceSteps (Some tr)" and "ops = getOpcodeSteps (Some tr)"
    and "st' = installTrace st tr"
    and "trace st2 = Some tr" and "st2' = resetDbgCursor st2"
  shows "trace st' = Some tr
       \<and> sourceStep (dbg st') = 0
       \<and> opcodeStep (dbg st') =
           (if srcs \<noteq> [] \<and> ops \<noteq> [] then clamp (pcOf (srcs ! 0)) 0 (int (length ops) - 1) else 0)
       \<and> mode (dbg st') = (if srcs \<noteq> [] then Source else Opcode)
       \<and> breakpoints (dbg st') = breakpoints (dbg st)
       \<and> sourceStep (dbg st2') = 0
       \<and> opcodeStep (dbg st2') =
           (if srcs \<noteq> [] \<and> ops \<noteq> [] then clamp (pcOf (srcs ! 0)) 0 (int (length ops) - 1) else 0)
       \<and> mode (dbg st2') = (if srcs \<noteq> [] then Source else Opcode)
       \<and> breakpoints (dbg st2') = breakpoints (dbg st2)"
proof -
  let ?s = "snd (activeSnapshot (st\<lparr>trace := Some tr\<rparr>))"
  have t: "trace ?s = Some tr" by (simp add: activeSnapshot_frame)
  have b: "breakpoints (dbg ?s) = breakpoints (dbg st)" by (simp add: activeSnapshot_frame)
  have i: "st' = resetDbgCursor ?s" using assms(3) by (simp add: installTrace_def)
  show ?thesis
    unfolding i assms(1,2,5)
    using resetDbgCursor_fields [OF t] resetDbgCursor_fields [OF assms(4)] b
    by simp
qed

theorem install_resets_cursor_witness:
  "trace exLate = Some exLateTrace
   \<and> trace (installTrace exBpState exLateTrace) = Some exLateTrace
   \<and> breakpoints (dbg (installTrace exBpState exLateTrace)) = {9}
   \<and> mode (dbg (installTrace exBpState exLateTrace)) = Source
   \<and> sourceStep (dbg (installTrace exBpState exLateTrace)) = 0
   \<and> opcodeStep (dbg (installTrace exBpState exLateTrace)) = 2
   \<and> mode (dbg (resetDbgCursor exLate)) = Source
   \<and> sourceStep (dbg (resetDbgCursor exLate)) = 0
   \<and> opcodeStep (dbg (resetDbgCursor exLate)) = 2"
proof -
  have h1: "exPcs [2, 3] = getSourceSteps (Some exLateTrace)"
    by (simp add: getSourceSteps_def exLateTrace_def exPcs_def)
  have h2: "exPcs [0, 1, 2, 3] = getOpcodeSteps (Some exLateTrace)"
    by (simp add: getOpcodeSteps_def exLateTrace_def exPcs_def)
  have h4: "trace exLate = Some exLateTrace" by (simp add: exLate_def)
  have v: "clamp (pcOf (exPcs [2, 3] ! 0)) 0 (int (length (exPcs [0, 1, 2, 3])) - 1) = 2"
    by (simp add: exPcs_def exStep_def pcOf_def clamp_def)
  have ne: "exPcs [2, 3] \<noteq> [] \<and> exPcs [0, 1, 2, 3] \<noteq> []" by (simp add: exPcs_def)
  have bp: "breakpoints (dbg exBpState) = {9}" by (simp add: exBpState_def exDbg_def)
  from install_resets_cursor [OF h1 h2 refl h4 refl, of exBpState] v ne bp h4
  show ?thesis by simp
qed

text \<open>
  Counterexample to C2 as stated: \<open>exLateTrace\<close> has its first source step at pc 2, and
  after installing it (or resetting the cursor on a state that holds it) the opcode index
  is 2, not 0.
\<close>

theorem install_opcode_index_counterexample:
  "trace exLate = Some exLateTrace
   \<and> sourceStep (dbg (resetDbgCursor exLate)) = 0
   \<and> opcodeStep (dbg (resetDbgCursor exLate)) = 2
   \<and> opcodeStep (dbg (installTrace exBpState exLateTrace)) = 2
   \<and> \<not> (opcodeStep (dbg (resetDbgCursor exLate)) = 0)
   \<and> \<not> (opcodeStep (dbg (installTrace exBpState exLateTrace)) = 0)"
proof -
  have "opcodeStep (dbg (resetDbgCursor exLate)) = 2" by code_simp
  moreover have "opcodeStep (dbg (installTrace exBpState exLateTrace)) = 2" by code_simp
  moreover have "sourceStep (dbg (resetDbgCursor exLate)) = 0" by code_simp
  moreover have "trace exLate = Some exLateTrace" by (simp add: exLate_def)
  ultimately show ?thesis by simp
qed

section \<open>Round trip from an opcode index\<close>

lemma sourceIndexFromOpcodeIndex_loop:
  assumes "trace s = Some tr" and "getSourceSteps (Some tr) \<noteq> []"
    and "0 \<le> i" and "i < int (length (getOpcodeSteps (Some tr)))"
  shows "sourceIndexFromOpcodeIndex s i =
           int (sourceIndexLoop (getSourceSteps (Some tr))
                  (pcOf (getOpcodeSteps (Some tr) ! nat i)) 0 0)"
  using assms by (simp add: sourceIndexFromOpcodeIndex_def Let_def at_def clamp_def)

text \<open>
  C7 (as amended). In a trace whose opcode steps have their index as pc and whose source
  pcs are non-decreasing, for an in-range opcode index \<open>i\<close> such that some source step
  has a pc of at most \<open>i\<close>, going to the source index with \<open>sourceIndexFromOpcodeIndex\<close>
  and back with \<open>syncOpcodeFromSource\<close> yields an opcode index between 0 and \<open>i\<close>.
\<close>

theorem roundtrip_not_after:
  assumes "trace st = Some tr"
    and "srcs = getSourceSteps (Some tr)" and "ops = getOpcodeSteps (Some tr)"
    and "\<forall>k < length ops. pcOf (ops ! k) = int k"
    and "sorted (map pcOf srcs)"
    and "0 \<le> i" and "i < int (length ops)"
    and "\<exists>j < length srcs. pcOf (srcs ! j) \<le> i"
    and "back = opcodeStep (dbg (syncOpcodeFromSource
                  (st\<lparr>dbg := (dbg st)\<lparr>sourceStep := sourceIndexFromOpcodeIndex st i\<rparr>\<rparr>)))"
  shows "0 \<le> back \<and> back \<le> i"
proof -
  have ne: "getSourceSteps (Some tr) \<noteq> []" "getOpcodeSteps (Some tr) \<noteq> []"
    using assms(2,3,6,7,8) by auto
  have target: "pcOf (ops ! nat i) = i" using assms(4,6,7) by simp
  define r where "r = sourceIndexLoop srcs i 0 0"
  have idx: "sourceIndexFromOpcodeIndex st i = int r"
    using sourceIndexFromOpcodeIndex_loop [OF assms(1) ne(1)] assms(2,3,6,7) target
    by (simp add: r_def)
  have r: "r < length srcs \<and> pcOf (srcs ! r) \<le> i"
    using sourceIndexLoop_last [OF assms(5), of i] assms(8) by (simp add: r_def)
  let ?s = "st\<lparr>dbg := (dbg st)\<lparr>sourceStep := int r\<rparr>\<rparr>"
  have "opcodeStep (dbg (syncOpcodeFromSource ?s)) =
      clamp (pcOf (getSourceSteps (Some tr) ! nat (sourceStep (dbg ?s)))) 0
            (int (length (getOpcodeSteps (Some tr))) - 1)"
    using assms(1,2) ne r by (intro syncOpcodeFromSource_value) simp_all
  then have "back = clamp (pcOf (srcs ! r)) 0 (int (length ops) - 1)"
    using assms(2,3,9) idx by simp
  with r assms(6,7) show ?thesis by (simp add: clamp_def)
qed

theorem roundtrip_not_after_witness:
  "trace exSync \<noteq> None
   \<and> sorted (map pcOf (getSourceSteps (trace exSync)))
   \<and> map pcOf (getOpcodeSteps (trace exSync)) = [0, 1, 2, 3, 4, 5, 6, 7, 8, 9]
   \<and> pcOf (getSourceSteps (trace exSync) ! 1) \<le> 6
   \<and> sourceIndexFromOpcodeIndex exSync 6 = 1
   \<and> opcodeStep (dbg (syncOpcodeFromSource
        (exSync\<lparr>dbg := (dbg exSync)\<lparr>sourceStep := sourceIndexFromOpcodeIndex exSync 6\<rparr>\<rparr>))) = 4
   \<and> (4::int) \<le> 6"
proof -
  let ?tr = "\<lparr>opcode_steps = Some (exPcs [0, 1, 2, 3, 4, 5, 6, 7, 8, 9]),
             source_steps = Some (exPcs [0, 4, 8]), steps = None\<rparr>"
  have h1: "trace exSync = Some ?tr" by (simp add: exSync_def)
  have h2: "exPcs [0, 4, 8] = getSourceSteps (Some ?tr)"
    by (simp add: getSourceSteps_def exPcs_def)
  have h3: "exPcs [0, 1, 2, 3, 4, 5, 6, 7, 8, 9] = getOpcodeSteps (Some ?tr)"
    by (simp add: getOpcodeSteps_def exPcs_def)
  have pcs: "map pcOf (exPcs [0, 1, 2, 3, 4, 5, 6, 7, 8, 9]) = [0, 1, 2, 3, 4, 5, 6, 7, 8, 9]"
    by (simp add: exPcs_def exStep_def pcOf_def)
  have h4: "\<forall>k < length (exPcs [0, 1, 2, 3, 4, 5, 6, 7, 8, 9]).
              pcOf (exPcs [0, 1, 2, 3, 4, 5, 6, 7, 8, 9] ! k) = int k"
  proof (intro allI impI)
    fix k assume "k < length (exPcs [0, 1, 2, 3, 4, 5, 6, 7, 8, 9])"
    then have "pcOf (exPcs [0, 1, 2, 3, 4, 5, 6, 7, 8, 9] ! k)
        = map pcOf (exPcs [0, 1, 2, 3, 4, 5, 6, 7, 8, 9]) ! k"
      by (simp only: nth_map)
    moreover have "k < 10 \<Longrightarrow> [0, 1, 2, 3, 4, 5, 6, 7, 8, 9::int] ! k = int k"
      by (auto simp: less_Suc_eq numeral_eq_Suc)
    moreover have "k < 10" using \<open>k < length (exPcs [0, 1, 2, 3, 4, 5, 6, 7, 8, 9])\<close>
      by (simp add: exPcs_def)
    ultimately show "pcOf (exPcs [0, 1, 2, 3, 4, 5, 6, 7, 8, 9] ! k) = int k"
      unfolding pcs by simp
  qed
  have h5: "sorted (map pcOf (exPcs [0, 4, 8]))"
    by (simp add: exPcs_def exStep_def pcOf_def)
  have h67: "(0::int) \<le> 6" "6 < int (length (exPcs [0, 1, 2, 3, 4, 5, 6, 7, 8, 9]))"
    by (simp_all add: exPcs_def)
  have h8: "\<exists>j < length (exPcs [0, 4, 8]). pcOf (exPcs [0, 4, 8] ! j) \<le> 6"
    by (rule exI [of _ 1]) (simp add: exPcs_def exStep_def pcOf_def)
  have h9: "4 = opcodeStep (dbg (syncOpcodeFromSource
        (exSync\<lparr>dbg := (dbg exSync)\<lparr>sourceStep := sourceIndexFromOpcodeIndex exSync 6\<rparr>\<rparr>)))"
    by code_simp
  have s: "sourceIndexFromOpcodeIndex exSync 6 = 1" by code_simp
  have p: "pcOf (exPcs [0, 4, 8] ! 1) \<le> 6" by (simp add: exPcs_def exStep_def pcOf_def)
  have g: "getSourceSteps (trace exSync) = exPcs [0, 4, 8]"
    "getOpcodeSteps (trace exSync) = exPcs [0, 1, 2, 3, 4, 5, 6, 7, 8, 9]"
    using h1 h2 h3 by simp_all
  from roundtrip_not_after [OF h1 h2 h3 h4 h5 h67 h8 h9] h1 h5 pcs p s h9
  show ?thesis unfolding g by simp
qed

text \<open>
  Counterexample to C7 as stated: in \<open>exLate\<close> the opcode pcs are the indices 0..3 and
  the source pcs 2, 3 are non-decreasing. Opcode index 1 maps to source index 0 (no source
  step is at or before pc 1), and source index 0 maps back to opcode index 2, above 1.
\<close>

theorem roundtrip_counterexample:
  "map pcOf (getOpcodeSteps (trace exLate)) = [0, 1, 2, 3]
   \<and> map pcOf (getSourceSteps (trace exLate)) = [2, 3]
   \<and> sourceIndexFromOpcodeIndex exLate 1 = 0
   \<and> opcodeStep (dbg (syncOpcodeFromSource
        (exLate\<lparr>dbg := (dbg exLate)\<lparr>sourceStep := sourceIndexFromOpcodeIndex exLate 1\<rparr>\<rparr>))) = 2
   \<and> \<not> (opcodeStep (dbg (syncOpcodeFromSource
        (exLate\<lparr>dbg := (dbg exLate)\<lparr>sourceStep := sourceIndexFromOpcodeIndex exLate 1\<rparr>\<rparr>))) \<le> 1)"
proof -
  have a: "map pcOf (getOpcodeSteps (trace exLate)) = [0, 1, 2, 3]" by code_simp
  have b: "map pcOf (getSourceSteps (trace exLate)) = [2, 3]" by code_simp
  have c: "sourceIndexFromOpcodeIndex exLate 1 = 0" by code_simp
  have d: "opcodeStep (dbg (syncOpcodeFromSource
        (exLate\<lparr>dbg := (dbg exLate)\<lparr>sourceStep := sourceIndexFromOpcodeIndex exLate 1\<rparr>\<rparr>))) = 2"
    by code_simp
  from a b c d show ?thesis by simp
qed

section \<open>The two indices after a stepping operation\<close>

lemma sourceStepIntoIndex_range:
  "stps \<noteq> [] \<Longrightarrow>
     0 \<le> sourceStepIntoIndex stps idx \<and> sourceStepIntoIndex stps idx < int (length stps)"
  by (cases stps) (simp_all add: sourceStepIntoIndex_def clamp_def)

lemma sourceStepOverIndex_range:
  assumes "stps \<noteq> []" and "0 \<le> idx"
  shows "0 \<le> sourceStepOverIndex stps idx \<and> sourceStepOverIndex stps idx < int (length stps)"
proof -
  have "0 < int (length stps)" using assms(1) by simp
  with sourceStepOverLoop_cases [of "idx + 1" stps "stepDepth (at stps idx)"] assms(2)
  show ?thesis unfolding sourceStepOverIndex_def by auto
qed

lemma sourceStepOutIndex_range:
  assumes "stps \<noteq> []" and "0 \<le> idx"
  shows "0 \<le> sourceStepOutIndex stps idx \<and> sourceStepOutIndex stps idx < int (length stps)"
proof -
  have "0 < int (length stps)" using assms(1) by simp
  with sourceStepOutLoop_cases [of "idx + 1" stps "stepDepth (at stps idx)"] assms(2)
  show ?thesis unfolding sourceStepOutIndex_def by auto
qed

lemma continueLoop_range:
  "srcs \<noteq> [] \<Longrightarrow> 0 \<le> continueLoop srcs bps k \<and> continueLoop srcs bps k < int (length srcs)"
  using continueLoop_cases [of srcs bps k] by (cases srcs) auto

text \<open>
  After \<open>syncOpcodeFromSource\<close> on a source-mode state whose source index is in range,
  the opcode index is the clamped pc of the current source step.
\<close>

lemma syncOpcodeFromSource_synced:
  assumes "trace s = Some tr"
    and "getSourceSteps (Some tr) = srcs" and "getOpcodeSteps (Some tr) = ops"
    and "srcs \<noteq> []" and "ops \<noteq> []"
    and "mode (dbg s) = Source"
    and "0 \<le> sourceStep (dbg s) \<and> sourceStep (dbg s) < int (length srcs)"
  shows "trace (syncOpcodeFromSource s) = Some tr
       \<and> mode (dbg (syncOpcodeFromSource s)) = Source
       \<and> 0 \<le> sourceStep (dbg (syncOpcodeFromSource s))
       \<and> sourceStep (dbg (syncOpcodeFromSource s)) < int (length srcs)
       \<and> opcodeStep (dbg (syncOpcodeFromSource s)) =
           clamp (pcOf (srcs ! nat (sourceStep (dbg (syncOpcodeFromSource s))))) 0
                 (int (length ops) - 1)"
  using assms syncOpcodeFromSource_value [of s tr]
  by (simp add: syncOpcodeFromSource_frame)

text \<open>The state on which the three source stepping operations compute the next index.\<close>

lemma source_entry:
  assumes "trace st = Some tr" and "getSourceSteps (Some tr) = srcs" and "srcs \<noteq> []"
    and "st1 = (if mode (dbg st) = Opcode then syncSourceFromOpcode st else st)"
    and "idx = clamp (sourceStep (dbg st1)) 0 (int (length srcs) - 1)"
  shows "trace st1 = Some tr" and "0 \<le> idx"
proof -
  show "trace st1 = Some tr" using assms(1,4) by (simp add: syncSourceFromOpcode_frame)
  show "0 \<le> idx" using assms(5) by (simp add: clamp_def)
qed

lemma stepIntoSource_unfold:
  assumes "trace st = Some tr" and "getSourceSteps (Some tr) = srcs" and "srcs \<noteq> []"
  shows "\<exists>s. stepIntoSource st = syncOpcodeFromSource s \<and> trace s = Some tr
            \<and> mode (dbg s) = Source
            \<and> 0 \<le> sourceStep (dbg s) \<and> sourceStep (dbg s) < int (length srcs)"
proof -
  define st1 where "st1 = (if mode (dbg st) = Opcode then syncSourceFromOpcode st else st)"
  define idx where "idx = clamp (sourceStep (dbg st1)) 0 (int (length srcs) - 1)"
  define s where "s = st1\<lparr>dbg := (dbg st1)\<lparr>mode := Source,
                        sourceStep := sourceStepIntoIndex srcs idx\<rparr>\<rparr>"
  have "stepIntoSource st = syncOpcodeFromSource s"
    using assms by (simp add: stepIntoSource_def Let_def s_def idx_def st1_def)
  moreover have "trace s = Some tr"
    using source_entry(1) [OF assms st1_def idx_def] by (simp add: s_def)
  moreover have "mode (dbg s) = Source" by (simp add: s_def)
  moreover have "0 \<le> sourceStep (dbg s) \<and> sourceStep (dbg s) < int (length srcs)"
    using sourceStepIntoIndex_range [OF assms(3)] by (simp add: s_def)
  ultimately show ?thesis by blast
qed

lemma stepOverSource_unfold:
  assumes "trace st = Some tr" and "getSourceSteps (Some tr) = srcs" and "srcs \<noteq> []"
  shows "\<exists>s. stepOverSource st = syncOpcodeFromSource s \<and> trace s = Some tr
            \<and> mode (dbg s) = Source
            \<and> 0 \<le> sourceStep (dbg s) \<and> sourceStep (dbg s) < int (length srcs)"
proof -
  define st1 where "st1 = (if mode (dbg st) = Opcode then syncSourceFromOpcode st else st)"
  define idx where "idx = clamp (sourceStep (dbg st1)) 0 (int (length srcs) - 1)"
  define s where "s = st1\<lparr>dbg := (dbg st1)\<lparr>mode := Source,
                        sourceStep := sourceStepOverIndex srcs idx\<rparr>\<rparr>"
  have "stepOverSource st = syncOpcodeFromSource s"
    using assms by (simp add: stepOverSource_def Let_def s_def idx_def st1_def)
  moreover have "trace s = Some tr"
    using source_entry(1) [OF assms st1_def idx_def] by (simp add: s_def)
  moreover have "mode (dbg s) = Source" by (simp add: s_def)
  moreover have "0 \<le> sourceStep (dbg s) \<and> sourceStep (dbg s) < int (length srcs)"
    using sourceStepOverIndex_range [OF assms(3) source_entry(2) [OF assms st1_def idx_def]]
    by (simp add: s_def)
  ultimately show ?thesis by blast
qed

lemma stepOutSource_unfold:
  assumes "trace st = Some tr" and "getSourceSteps (Some tr) = srcs" and "srcs \<noteq> []"
  shows "\<exists>s. stepOutSource st = syncOpcodeFromSource s \<and> trace s = Some tr
            \<and> mode (dbg s) = Source
            \<and> 0 \<le> sourceStep (dbg s) \<and> sourceStep (dbg s) < int (length srcs)"
proof -
  define st1 where "st1 = (if mode (dbg st) = Opcode then syncSourceFromOpcode st else st)"
  define idx where "idx = clamp (sourceStep (dbg st1)) 0 (int (length srcs) - 1)"
  define s where "s = st1\<lparr>dbg := (dbg st1)\<lparr>mode := Source,
                        sourceStep := sourceStepOutIndex srcs idx\<rparr>\<rparr>"
  have "stepOutSource st = syncOpcodeFromSource s"
    using assms by (simp add: stepOutSource_def Let_def s_def idx_def st1_def)
  moreover have "trace s = Some tr"
    using source_entry(1) [OF assms st1_def idx_def] by (simp add: s_def)
  moreover have "mode (dbg s) = Source" by (simp add: s_def)
  moreover have "0 \<le> sourceStep (dbg s) \<and> sourceStep (dbg s) < int (length srcs)"
    using sourceStepOutIndex_range [OF assms(3) source_entry(2) [OF assms st1_def idx_def]]
    by (simp add: s_def)
  ultimately show ?thesis by blast
qed

lemma continueExecution_unfold:
  assumes "trace st = Some tr" and "getSourceSteps (Some tr) = srcs" and "srcs \<noteq> []"
  shows "\<exists>s. continueExecution st = syncOpcodeFromSource s \<and> trace s = Some tr
            \<and> mode (dbg s) = Source
            \<and> 0 \<le> sourceStep (dbg s) \<and> sourceStep (dbg s) < int (length srcs)"
proof -
  define st1 where "st1 = st\<lparr>dbg := (dbg st)\<lparr>mode := Source\<rparr>\<rparr>"
  define r where "r = fst (continueToBreakpoint st1)"
  define s where "s = st1\<lparr>dbg := (dbg st1)\<lparr>sourceStep := r\<rparr>\<rparr>"
  have ne: "getSourceSteps (Some tr) \<noteq> []" using assms(2,3) by simp
  have t1: "trace st1 = Some tr" "mode (dbg st1) = Source" using assms(1) by (simp_all add: st1_def)
  note c = continueToBreakpoint_source [OF t1(1) ne t1(2)]
  have "continueExecution st = syncOpcodeFromSource s"
    using assms c by (simp add: continueExecution_def Let_def s_def r_def st1_def)
  moreover have "trace s = Some tr" "mode (dbg s) = Source" using t1 by (simp_all add: s_def)
  moreover have "0 \<le> r \<and> r < int (length srcs)"
    using c continueLoop_range [OF assms(3)] assms(2,3) by (cases srcs) (auto simp: r_def)
  then have "0 \<le> sourceStep (dbg s) \<and> sourceStep (dbg s) < int (length srcs)"
    by (simp add: s_def)
  ultimately show ?thesis by blast
qed

text \<open>What \<open>stepOpcode\<close> leaves behind when both sequences are non-empty.\<close>

lemma stepOpcode_unfold:
  assumes "trace st = Some tr"
    and "getSourceSteps (Some tr) = srcs" and "getOpcodeSteps (Some tr) = ops"
    and "srcs \<noteq> []" and "ops \<noteq> []"
  shows "trace (stepOpcode st delta) = Some tr"
    and "mode (dbg (stepOpcode st delta)) = Opcode"
    and "0 \<le> opcodeStep (dbg (stepOpcode st delta))
         \<and> opcodeStep (dbg (stepOpcode st delta)) < int (length ops)"
    and "sourceStep (dbg (stepOpcode st delta)) =
           int (sourceIndexLoop srcs (pcOf (ops ! nat (opcodeStep (dbg (stepOpcode st delta))))) 0 0)"
proof -
  define st1 where "st1 = (if mode (dbg st) \<noteq> Opcode then syncOpcodeFromSource st else st)"
  define idx where "idx = clamp (opcodeStep (dbg st1) + delta) 0 (int (length ops) - 1)"
  define s where "s = st1\<lparr>dbg := (dbg st1)\<lparr>mode := Opcode, opcodeStep := idx\<rparr>\<rparr>"
  have e: "stepOpcode st delta = syncSourceFromOpcode s"
    using assms by (simp add: stepOpcode_def Let_def s_def idx_def st1_def)
  have t: "trace s = Some tr"
    using assms(1) by (simp add: s_def st1_def syncOpcodeFromSource_frame)
  have i: "0 \<le> idx \<and> idx < int (length ops)"
    using assms(5) by (cases ops) (simp_all add: idx_def clamp_def)
  have o: "opcodeStep (dbg s) = idx" by (simp add: s_def)
  have v: "syncSourceFromOpcode s =
      s\<lparr>dbg := (dbg s)\<lparr>sourceStep := sourceIndexFromOpcodeIndex s idx\<rparr>\<rparr>"
    using t assms(2,4) o by (simp add: syncSourceFromOpcode_def)
  have l: "sourceIndexFromOpcodeIndex s idx = int (sourceIndexLoop srcs (pcOf (ops ! nat idx)) 0 0)"
    using sourceIndexFromOpcodeIndex_loop [OF t, of idx] assms(2,3,4) i by simp
  show "trace (stepOpcode st delta) = Some tr" unfolding e v using t by simp
  show "mode (dbg (stepOpcode st delta)) = Opcode" unfolding e v by (simp add: s_def)
  show "0 \<le> opcodeStep (dbg (stepOpcode st delta))
         \<and> opcodeStep (dbg (stepOpcode st delta)) < int (length ops)"
    unfolding e v using i o by simp
  show "sourceStep (dbg (stepOpcode st delta)) =
           int (sourceIndexLoop srcs (pcOf (ops ! nat (opcodeStep (dbg (stepOpcode st delta))))) 0 0)"
    unfolding e v using l o by simp
qed

text \<open>
  C6 (as amended). On a trace whose source and opcode sequences are both non-empty, after
  Step Into, Step Over, Step Out and Continue the cursor is in source mode, the source
  index is in range and the opcode index equals the pc of the current source step clamped
  into \<open>[0, length opcodeSteps - 1]\<close>. After an opcode step the cursor is in opcode mode
  and the opcode index is in range; if the source pcs are non-decreasing, the source index
  is the last source index whose pc is at most the pc of the current opcode step, and it
  is 0 when no source step has such a pc.
\<close>

theorem stepping_keeps_indices_synchronised:
  assumes "trace st = Some tr"
    and "srcs = getSourceSteps (Some tr)" and "ops = getOpcodeSteps (Some tr)"
    and "srcs \<noteq> []" and "ops \<noteq> []"
    and "srcSynced = (\<lambda>s. trace s = Some tr \<and> mode (dbg s) = Source
            \<and> 0 \<le> sourceStep (dbg s) \<and> sourceStep (dbg s) < int (length srcs)
            \<and> opcodeStep (dbg s) =
                clamp (pcOf (srcs ! nat (sourceStep (dbg s)))) 0 (int (length ops) - 1))"
    and "opSynced = (\<lambda>s. trace s = Some tr \<and> mode (dbg s) = Opcode
            \<and> 0 \<le> opcodeStep (dbg s) \<and> opcodeStep (dbg s) < int (length ops)
            \<and> 0 \<le> sourceStep (dbg s)
            \<and> ((\<exists>j < length srcs. pcOf (srcs ! j) \<le> pcOf (ops ! nat (opcodeStep (dbg s)))) \<longrightarrow>
                  nat (sourceStep (dbg s)) < length srcs
                \<and> pcOf (srcs ! nat (sourceStep (dbg s))) \<le> pcOf (ops ! nat (opcodeStep (dbg s)))
                \<and> (\<forall>j < length srcs. pcOf (srcs ! j) \<le> pcOf (ops ! nat (opcodeStep (dbg s)))
                      \<longrightarrow> int j \<le> sourceStep (dbg s)))
            \<and> (\<not> (\<exists>j < length srcs. pcOf (srcs ! j) \<le> pcOf (ops ! nat (opcodeStep (dbg s))))
                  \<longrightarrow> sourceStep (dbg s) = 0))"
  shows "srcSynced (stepIntoSource st) \<and> srcSynced (stepOverSource st)
       \<and> srcSynced (stepOutSource st) \<and> srcSynced (continueExecution st)
       \<and> (sorted (map pcOf srcs) \<longrightarrow> opSynced (stepOpcode st delta))"
proof -
  have g: "getSourceSteps (Some tr) = srcs" "getOpcodeSteps (Some tr) = ops"
    using assms(2,3) by simp_all
  have src: "srcSynced (syncOpcodeFromSource s)"
    if "trace s = Some tr" "mode (dbg s) = Source"
       "0 \<le> sourceStep (dbg s) \<and> sourceStep (dbg s) < int (length srcs)" for s
    unfolding assms(6)
    using syncOpcodeFromSource_synced [OF that(1) g assms(4,5) that(2,3)] by simp
  have into: "srcSynced (stepIntoSource st)"
    using stepIntoSource_unfold [OF assms(1) g(1) assms(4)] src by metis
  have over: "srcSynced (stepOverSource st)"
    using stepOverSource_unfold [OF assms(1) g(1) assms(4)] src by metis
  have out: "srcSynced (stepOutSource st)"
    using stepOutSource_unfold [OF assms(1) g(1) assms(4)] src by metis
  have cont: "srcSynced (continueExecution st)"
    using continueExecution_unfold [OF assms(1) g(1) assms(4)] src by metis
  have op: "opSynced (stepOpcode st delta)" if "sorted (map pcOf srcs)"
  proof -
    note u = stepOpcode_unfold [OF assms(1) g assms(4,5), of delta]
    let ?t = "pcOf (ops ! nat (opcodeStep (dbg (stepOpcode st delta))))"
    from sourceIndexLoop_last [OF that, of ?t] u
    show ?thesis unfolding assms(7) by simp
  qed
  from into over out cont op show ?thesis by blast
qed


theorem stepping_keeps_indices_synchronised_witness:
  "getSourceSteps (trace exSync) \<noteq> [] \<and> getOpcodeSteps (trace exSync) \<noteq> []
   \<and> sorted (map pcOf (getSourceSteps (trace exSync)))
   \<and> mode (dbg (stepOverSource exSync)) = Source
   \<and> sourceStep (dbg (stepOverSource exSync)) = 1
   \<and> pcOf (getSourceSteps (trace exSync) ! 1) = 4
   \<and> opcodeStep (dbg (stepOverSource exSync)) = 4
   \<and> mode (dbg (stepOpcode (stepOverSource exSync) 1)) = Opcode
   \<and> opcodeStep (dbg (stepOpcode (stepOverSource exSync) 1)) = 5
   \<and> sourceStep (dbg (stepOpcode (stepOverSource exSync) 1)) = 1"
proof -
  let ?tr = "\<lparr>opcode_steps = Some (exPcs [0, 1, 2, 3, 4, 5, 6, 7, 8, 9]),
             source_steps = Some (exPcs [0, 4, 8]), steps = None\<rparr>"
  have h1: "trace exSync = Some ?tr" by (simp add: exSync_def)
  have h2: "exPcs [0, 4, 8] = getSourceSteps (Some ?tr)"
    by (simp add: getSourceSteps_def exPcs_def)
  have h3: "exPcs [0, 1, 2, 3, 4, 5, 6, 7, 8, 9] = getOpcodeSteps (Some ?tr)"
    by (simp add: getOpcodeSteps_def exPcs_def)
  have h4: "exPcs [0, 4, 8] \<noteq> []" by (simp add: exPcs_def)
  have h5: "exPcs [0, 1, 2, 3, 4, 5, 6, 7, 8, 9] \<noteq> []" by (simp add: exPcs_def)
  have so: "sorted (map pcOf (exPcs [0, 4, 8]))" by (simp add: exPcs_def exStep_def pcOf_def)
  have g: "getSourceSteps (trace exSync) = exPcs [0, 4, 8]"
    "getOpcodeSteps (trace exSync) = exPcs [0, 1, 2, 3, 4, 5, 6, 7, 8, 9]"
    using h1 h2 h3 by simp_all
  have v1: "sourceStep (dbg (stepOverSource exSync)) = 1" by code_simp
  have v2: "pcOf (exPcs [0, 4, 8] ! 1) = 4" by (simp add: exPcs_def exStep_def pcOf_def)
  have v3: "opcodeStep (dbg (stepOpcode (stepOverSource exSync) 1)) = 5" by code_simp
  have v4: "sourceStep (dbg (stepOpcode (stepOverSource exSync) 1)) = 1" by code_simp
  have v5: "opcodeStep (dbg (stepOverSource exSync)) = 4" by code_simp
  have v6: "mode (dbg (stepOpcode (stepOverSource exSync) 1)) = Opcode" by code_simp
  from stepping_keeps_indices_synchronised [OF h1 h2 h3 h4 h5 refl refl, of 1]
  have "mode (dbg (stepOverSource exSync)) = Source" by blast
  with h4 h5 so v1 v2 v3 v4 v5 v6 show ?thesis unfolding g by simp
qed

text \<open>
  Counterexample to C6 as stated: on \<open>exLate\<close> (both sequences non-empty, source pcs
  non-decreasing) the cursor is reset and one opcode step back is taken. The opcode index
  is then 1, whose pc is 1, and the source index is 0, whose pc is 2: the source index is
  not an index whose pc is at most the pc of the current opcode step.
\<close>

theorem stepping_opcode_sync_counterexample:
  "map pcOf (getOpcodeSteps (trace exLate)) = [0, 1, 2, 3]
   \<and> map pcOf (getSourceSteps (trace exLate)) = [2, 3]
   \<and> opcodeStep (dbg (stepOpcode (resetDbgCursor exLate) (- 1))) = 1
   \<and> sourceStep (dbg (stepOpcode (resetDbgCursor exLate) (- 1))) = 0
   \<and> \<not> (pcOf (getSourceSteps (trace exLate)
               ! nat (sourceStep (dbg (stepOpcode (resetDbgCursor exLate) (- 1)))))
          \<le> pcOf (getOpcodeSteps (trace exLate)
               ! nat (opcodeStep (dbg (stepOpcode (resetDbgCursor exLate) (- 1))))))"
proof -
  have a: "map pcOf (getOpcodeSteps (trace exLate)) = [0, 1, 2, 3]" by code_simp
  have b: "map pcOf (getSourceSteps (trace exLate)) = [2, 3]" by code_simp
  have c: "opcodeStep (dbg (stepOpcode (resetDbgCursor exLate) (- 1))) = 1" by code_simp
  have d: "sourceStep (dbg (stepOpcode (resetDbgCursor exLate) (- 1))) = 0" by code_simp
  have e: "pcOf (getSourceSteps (trace exLate) ! 0) = 2" by code_simp
  have f: "pcOf (getOpcodeSteps (trace exLate) ! 1) = 1" by code_simp
  from a b c d e f show ?thesis by simp
qed

section \<open>Active index resolution and operations with nothing to step through\<close>

lemma getActiveStepIndex_range:
  "stps \<noteq> [] \<Longrightarrow>
     0 \<le> getActiveStepIndex s stps \<and> getActiveStepIndex s stps \<le> int (length stps) - 1"
  by (cases stps) (simp_all add: getActiveStepIndex_def Let_def clamp_def)

lemma getActiveSteps_setActiveStepIndex:
  "getActiveSteps (setActiveStepIndex s i) = getActiveSteps s"
  by (auto simp: getActiveSteps_def setActiveStepIndex_def split: option.splits)

lemma getActiveStepIndex_setActiveStepIndex:
  assumes "0 \<le> i" and "i \<le> int (length stps) - 1"
  shows "getActiveStepIndex (setActiveStepIndex s i) stps = i"
  using assms by (simp add: getActiveStepIndex_def setActiveStepIndex_def Let_def clamp_def)

lemma setActiveStepIndex_twice:
  "setActiveStepIndex (setActiveStepIndex s i) i = setActiveStepIndex s i"
  by (simp add: setActiveStepIndex_def)

text \<open>
  C9 (as amended). Whatever the stored indices, when the active sequence is non-empty
  \<open>activeSnapshot\<close> resolves an index within \<open>[0, length - 1]\<close>, returns the step
  there and writes the index back, so that a second read resolves the same index and
  changes nothing more; with an empty active sequence it returns nothing and leaves the
  state alone. Step Into, Step Over and Step Out leave the state unchanged when no trace
  is loaded or the source sequence is empty, the opcode step does when no trace is loaded
  or the opcode sequence is empty, and Continue does when no trace is loaded. Continue on
  a loaded trace with an empty source sequence does not fail either, but it switches to
  opcode mode and sets the opcode index to \<open>max 0 (length opcodeSteps - 1)\<close>, leaving
  the source index and the breakpoints alone.
\<close>

theorem cursor_clamps_and_idle_operations:
  assumes "stps = getActiveSteps st"
    and "idx = getActiveStepIndex st stps"
    and "st' = snd (activeSnapshot st)"
  shows "(stps \<noteq> [] \<longrightarrow>
            0 \<le> idx \<and> idx \<le> int (length stps) - 1
          \<and> fst (activeSnapshot st) = Some (stps ! nat idx)
          \<and> (if mode (dbg st') = Opcode then opcodeStep (dbg st') else sourceStep (dbg st')) = idx
          \<and> getActiveSteps st' = stps
          \<and> getActiveStepIndex st' stps = idx
          \<and> activeSnapshot st' = (Some (stps ! nat idx), st'))
       \<and> (stps = [] \<longrightarrow> activeSnapshot st = (None, st))
       \<and> (trace st = None \<longrightarrow>
            stepIntoSource st = st \<and> stepOverSource st = st \<and> stepOutSource st = st
          \<and> stepOpcode st delta = st \<and> continueExecution st = st)
       \<and> (getSourceSteps (trace st) = [] \<longrightarrow>
            stepIntoSource st = st \<and> stepOverSource st = st \<and> stepOutSource st = st)
       \<and> (getOpcodeSteps (trace st) = [] \<longrightarrow> stepOpcode st delta = st)
       \<and> (trace st \<noteq> None \<and> getSourceSteps (trace st) = [] \<longrightarrow>
            continueExecution st =
              st\<lparr>dbg := (dbg st)\<lparr>mode := Opcode,
                    opcodeStep := max 0 (int (length (getOpcodeSteps (trace st))) - 1)\<rparr>\<rparr>)"
proof -
  have active: "0 \<le> idx \<and> idx \<le> int (length stps) - 1
          \<and> fst (activeSnapshot st) = Some (stps ! nat idx)
          \<and> (if mode (dbg st') = Opcode then opcodeStep (dbg st') else sourceStep (dbg st')) = idx
          \<and> getActiveSteps st' = stps
          \<and> getActiveStepIndex st' stps = idx
          \<and> activeSnapshot st' = (Some (stps ! nat idx), st')" if ne: "stps \<noteq> []"
  proof -
    have r: "0 \<le> idx \<and> idx \<le> int (length stps) - 1"
      using getActiveStepIndex_range [OF ne] assms(2) by simp
    have a: "activeSnapshot st = (at stps idx, setActiveStepIndex st idx)"
      using ne assms(1,2) by (simp add: activeSnapshot_def Let_def)
    have s: "st' = setActiveStepIndex st idx" using a assms(3) by simp
    have v: "at stps idx = Some (stps ! nat idx)" using r by (simp add: at_def)
    have stored: "(if mode (dbg st') = Opcode then opcodeStep (dbg st')
                   else sourceStep (dbg st')) = idx"
      unfolding s by (simp add: setActiveStepIndex_def)
    have same: "getActiveSteps st' = stps"
      unfolding s using assms(1) by (simp add: getActiveSteps_setActiveStepIndex)
    have again: "getActiveStepIndex st' stps = idx"
      unfolding s using r by (simp add: getActiveStepIndex_setActiveStepIndex)
    have "activeSnapshot st' = (at stps idx, setActiveStepIndex st' idx)"
      using ne same again by (simp add: activeSnapshot_def Let_def)
    then have second: "activeSnapshot st' = (Some (stps ! nat idx), st')"
      unfolding v s by (simp add: setActiveStepIndex_twice)
    from r a v stored same again second show ?thesis by simp
  qed
  have empty: "activeSnapshot st = (None, st)" if "stps = []"
    using that assms(1) by (simp add: activeSnapshot_def Let_def)
  have none: "stepIntoSource st = st \<and> stepOverSource st = st \<and> stepOutSource st = st
          \<and> stepOpcode st delta = st \<and> continueExecution st = st" if "trace st = None"
    using that
    by (simp add: stepIntoSource_def stepOverSource_def stepOutSource_def stepOpcode_def
        continueExecution_def)
  have nosrc: "stepIntoSource st = st \<and> stepOverSource st = st \<and> stepOutSource st = st"
    if "getSourceSteps (trace st) = []"
  proof (cases "trace st")
    case None
    with none show ?thesis by simp
  next
    case (Some t)
    with that show ?thesis
      by (simp add: stepIntoSource_def stepOverSource_def stepOutSource_def)
  qed
  have noops: "stepOpcode st delta = st" if "getOpcodeSteps (trace st) = []"
  proof (cases "trace st")
    case None
    with none show ?thesis by simp
  next
    case (Some t)
    with that show ?thesis by (simp add: stepOpcode_def)
  qed
  have cont: "continueExecution st =
      st\<lparr>dbg := (dbg st)\<lparr>mode := Opcode,
            opcodeStep := max 0 (int (length (getOpcodeSteps (trace st))) - 1)\<rparr>\<rparr>"
    if "trace st \<noteq> None \<and> getSourceSteps (trace st) = []"
    using that by (auto simp: continueExecution_def Let_def)
  from active empty none nosrc noops cont show ?thesis by blast
qed

theorem cursor_clamps_and_idle_operations_witness:
  "getActiveSteps exOutOfRange \<noteq> []
   \<and> sourceStep (dbg exOutOfRange) = 99
   \<and> getActiveStepIndex exOutOfRange (getActiveSteps exOutOfRange) = 2
   \<and> int (length (getActiveSteps exOutOfRange)) - 1 = 2
   \<and> sourceStep (dbg (snd (activeSnapshot exOutOfRange))) = 2
   \<and> trace exNoTrace = None
   \<and> stepOverSource exNoTrace = exNoTrace
   \<and> stepOpcode exNoTrace 1 = exNoTrace
   \<and> continueExecution exNoTrace = exNoTrace
   \<and> trace exEmpty \<noteq> None
   \<and> getActiveSteps exEmpty = []
   \<and> getSourceSteps (trace exEmpty) = [] \<and> getOpcodeSteps (trace exEmpty) = []
   \<and> activeSnapshot exEmpty = (None, exEmpty)
   \<and> stepIntoSource exEmpty = exEmpty
   \<and> stepOpcode exEmpty 1 = exEmpty
   \<and> sourceStep (dbg (continueExecution exEmpty)) = sourceStep (dbg exEmpty)"
proof -
  have a1: "getActiveSteps exOutOfRange = exPcs [0, 4, 8]" by code_simp
  have a2: "exPcs [0, 4, 8] \<noteq> []" by (simp add: exPcs_def)
  have a3: "getActiveStepIndex exOutOfRange (exPcs [0, 4, 8]) = 2" by code_simp
  have a4: "sourceStep (dbg exOutOfRange) = 99" by (simp add: exOutOfRange_def)
  have a5: "int (length (exPcs [0, 4, 8])) - 1 = 2" by (simp add: exPcs_def)
  have a6: "mode (dbg (snd (activeSnapshot exOutOfRange))) = Source" by code_simp
  note T = cursor_clamps_and_idle_operations [OF a1 [symmetric] a3 [symmetric] refl, of 1]
  from T a2 a6 have p1: "sourceStep (dbg (snd (activeSnapshot exOutOfRange))) = 2" by simp
  have b1: "trace exNoTrace = None" by (simp add: exNoTrace_def)
  note U = cursor_clamps_and_idle_operations [OF refl refl refl, of exNoTrace 1]
  from U b1 have p2: "stepOverSource exNoTrace = exNoTrace \<and> stepOpcode exNoTrace 1 = exNoTrace
      \<and> continueExecution exNoTrace = exNoTrace" by blast
  have c1: "trace exEmpty \<noteq> None" by (simp add: exEmpty_def)
  have c2: "getSourceSteps (trace exEmpty) = []" "getOpcodeSteps (trace exEmpty) = []"
    by (simp_all add: exEmpty_def getSourceSteps_def getOpcodeSteps_def)
  have c3: "getActiveSteps exEmpty = []"
    by (simp add: exEmpty_def getActiveSteps_def getSourceSteps_def getOpcodeSteps_def)
  note V = cursor_clamps_and_idle_operations [OF refl refl refl, of exEmpty 1]
  from V c3 have p3: "activeSnapshot exEmpty = (None, exEmpty)" by blast
  from V c2 have p4: "stepIntoSource exEmpty = exEmpty \<and> stepOpcode exEmpty 1 = exEmpty"
    by blast
  from V c1 c2(1) have "continueExecution exEmpty =
      exEmpty\<lparr>dbg := (dbg exEmpty)\<lparr>mode := Opcode,
                 opcodeStep := max 0 (int (length (getOpcodeSteps (trace exEmpty))) - 1)\<rparr>\<rparr>"
    by blast
  then have p5: "sourceStep (dbg (continueExecution exEmpty)) = sourceStep (dbg exEmpty)"
    by simp
  from a2 a3 a4 a5 p1 b1 p2 c1 c2 c3 p3 p4 p5 show ?thesis unfolding a1 by simp
qed

text \<open>
  Counterexample to C9 as stated: \<open>exEmpty\<close> holds a trace whose two sequences are empty,
  in source mode with stored opcode index 3. Continue does not leave it unchanged: it
  switches to opcode mode and sets the opcode index to 0.
\<close>

theorem continue_on_empty_trace_counterexample:
  "trace exEmpty \<noteq> None
   \<and> getSourceSteps (trace exEmpty) = [] \<and> getOpcodeSteps (trace exEmpty) = []
   \<and> mode (dbg exEmpty) = Source \<and> opcodeStep (dbg exEmpty) = 3
   \<and> mode (dbg (continueExecution exEmpty)) = Opcode
   \<and> opcodeStep (dbg (continueExecution exEmpty)) = 0
   \<and> continueExecution exEmpty \<noteq> exEmpty"
proof -
  have a: "trace exEmpty \<noteq> None" by (simp add: exEmpty_def)
  have b: "getSourceSteps (trace exEmpty) = []" "getOpcodeSteps (trace exEmpty) = []"
    by (simp_all add: exEmpty_def getSourceSteps_def getOpcodeSteps_def)
  have c: "mode (dbg exEmpty) = Source" "opcodeStep (dbg exEmpty) = 3"
    by (simp_all add: exEmpty_def exDbg_def)
  have d: "mode (dbg (continueExecution exEmpty)) = Opcode" by code_simp
  have e: "opcodeStep (dbg (continueExecution exEmpty)) = 0" by code_simp
  have "continueExecution exEmpty \<noteq> exEmpty" using c(1) d by auto
  with a b c d e show ?thesis by simp
qed

section \<open>Frame tint\<close>

lemma contributes_iff:
  "contributes target s sp \<longleftrightarrow>
     (\<exists>mp. mapping s = Some mp \<and> span mp = Some sp)
     \<and> frameIdFromStep (Some s) = Some target \<and> line sp \<noteq> 0"
  by (auto simp: contributes_def split: option.splits)

lemma contributes_unique: "contributes target s sp \<Longrightarrow> contributes target s sp' \<Longrightarrow> sp' = sp"
  by (auto simp: contributes_iff)

lemma spanEnd_nonzero: "line sp \<noteq> 0 \<Longrightarrow> spanEnd sp \<noteq> 0"
  by (simp add: spanEnd_def split: option.splits)

lemma frameSpanLoop_skip:
  assumes "\<not> (\<exists>sp. contributes target s sp)"
  shows "frameSpanLoop (s # rest) target a b = frameSpanLoop rest target a b"
  using assms by (auto simp: contributes_iff Let_def split: option.splits)

lemma frameSpanLoop_take:
  assumes "contributes target s sp"
  shows "frameSpanLoop (s # rest) target a b =
           frameSpanLoop rest target
             (if a = 0 \<or> line sp < a then line sp else a)
             (if b = 0 \<or> spanEnd sp > b then spanEnd sp else b)"
  using assms by (auto simp: contributes_iff Let_def)

text \<open>
  The start accumulator ends at or below the line of every contributing step and, when it
  was set, at or below its initial value; it ends on its initial value or on the line of
  a contributing step.
\<close>

lemma frameSpanLoop_start_below:
  "(\<forall>s \<in> set stps. \<forall>sp. contributes target s sp \<longrightarrow>
        fst (frameSpanLoop stps target a b) \<le> line sp)
   \<and> (a \<noteq> 0 \<longrightarrow> fst (frameSpanLoop stps target a b) \<le> a)"
proof (induction stps arbitrary: a b)
  case Nil
  show ?case by simp
next
  case (Cons s rest)
  show ?case
  proof (cases "\<exists>sp. contributes target s sp")
    case False
    with Cons.IH [of a b] show ?thesis
      unfolding frameSpanLoop_skip [OF False] by simp
  next
    case True
    then obtain sp where c: "contributes target s sp" by blast
    define a2 where "a2 = (if a = 0 \<or> line sp < a then line sp else a)"
    define b2 where "b2 = (if b = 0 \<or> spanEnd sp > b then spanEnd sp else b)"
    have nz: "line sp \<noteq> 0" using c by (simp add: contributes_iff)
    have a2: "a2 \<noteq> 0" "a2 \<le> line sp" "a \<noteq> 0 \<longrightarrow> a2 \<le> a"
      using nz by (auto simp: a2_def)
    have eq: "frameSpanLoop (s # rest) target a b = frameSpanLoop rest target a2 b2"
      using frameSpanLoop_take [OF c] by (simp add: a2_def b2_def)
    from Cons.IH [of a2 b2] a2(1)
    have ih: "\<forall>t \<in> set rest. \<forall>sp'. contributes target t sp' \<longrightarrow>
                fst (frameSpanLoop rest target a2 b2) \<le> line sp'"
      and le: "fst (frameSpanLoop rest target a2 b2) \<le> a2" by simp_all
    have here: "fst (frameSpanLoop rest target a2 b2) \<le> line sp'" if "contributes target s sp'" for sp'
      using contributes_unique [OF c that] le a2(2) by simp
    have up: "a \<noteq> 0 \<longrightarrow> fst (frameSpanLoop rest target a2 b2) \<le> a"
      using le a2(3) by auto
    from ih here up show ?thesis unfolding eq by simp
  qed
qed

lemma frameSpanLoop_start_attained:
  "fst (frameSpanLoop stps target a b) = a
   \<or> (\<exists>s \<in> set stps. \<exists>sp. contributes target s sp
          \<and> line sp = fst (frameSpanLoop stps target a b))"
proof (induction stps arbitrary: a b)
  case Nil
  show ?case by simp
next
  case (Cons s rest)
  show ?case
  proof (cases "\<exists>sp. contributes target s sp")
    case False
    with Cons.IH [of a b] show ?thesis
      unfolding frameSpanLoop_skip [OF False] by auto
  next
    case True
    then obtain sp where c: "contributes target s sp" by blast
    define a2 where "a2 = (if a = 0 \<or> line sp < a then line sp else a)"
    define b2 where "b2 = (if b = 0 \<or> spanEnd sp > b then spanEnd sp else b)"
    have eq: "frameSpanLoop (s # rest) target a b = frameSpanLoop rest target a2 b2"
      using frameSpanLoop_take [OF c] by (simp add: a2_def b2_def)
    have a2: "a2 = line sp \<or> a2 = a" by (simp add: a2_def)
    from Cons.IH [of a2 b2] show ?thesis
    proof
      assume "fst (frameSpanLoop rest target a2 b2) = a2"
      with a2 c show ?thesis unfolding eq by auto
    next
      assume "\<exists>t \<in> set rest. \<exists>sp'. contributes target t sp'
          \<and> line sp' = fst (frameSpanLoop rest target a2 b2)"
      then show ?thesis unfolding eq by auto
    qed
  qed
qed

text \<open>The end accumulator, in the same way, from above.\<close>

lemma frameSpanLoop_end_above:
  "(\<forall>s \<in> set stps. \<forall>sp. contributes target s sp \<longrightarrow>
        spanEnd sp \<le> snd (frameSpanLoop stps target a b))
   \<and> (b \<noteq> 0 \<longrightarrow> b \<le> snd (frameSpanLoop stps target a b))"
proof (induction stps arbitrary: a b)
  case Nil
  show ?case by simp
next
  case (Cons s rest)
  show ?case
  proof (cases "\<exists>sp. contributes target s sp")
    case False
    with Cons.IH [of a b] show ?thesis
      unfolding frameSpanLoop_skip [OF False] by simp
  next
    case True
    then obtain sp where c: "contributes target s sp" by blast
    define a2 where "a2 = (if a = 0 \<or> line sp < a then line sp else a)"
    define b2 where "b2 = (if b = 0 \<or> spanEnd sp > b then spanEnd sp else b)"
    have nz: "spanEnd sp \<noteq> 0" using c by (simp add: contributes_iff spanEnd_nonzero)
    have b2: "b2 \<noteq> 0" "spanEnd sp \<le> b2" "b \<noteq> 0 \<longrightarrow> b \<le> b2"
      using nz by (auto simp: b2_def)
    have eq: "frameSpanLoop (s # rest) target a b = frameSpanLoop rest target a2 b2"
      using frameSpanLoop_take [OF c] by (simp add: a2_def b2_def)
    from Cons.IH [of a2 b2] b2(1)
    have ih: "\<forall>t \<in> set rest. \<forall>sp'. contributes target t sp' \<longrightarrow>
                spanEnd sp' \<le> snd (frameSpanLoop rest target a2 b2)"
      and le: "b2 \<le> snd (frameSpanLoop rest target a2 b2)" by simp_all
    have here: "spanEnd sp' \<le> snd (frameSpanLoop rest target a2 b2)"
      if "contributes target s sp'" for sp'
      using contributes_unique [OF c that] le b2(2) by simp
    have up: "b \<noteq> 0 \<longrightarrow> b \<le> snd (frameSpanLoop rest target a2 b2)"
      using le b2(3) by auto
    from ih here up show ?thesis unfolding eq by simp
  qed
qed

lemma frameSpanLoop_end_attained:
  "snd (frameSpanLoop stps target a b) = b
   \<or> (\<exists>s \<in> set stps. \<exists>sp. contributes target s sp
          \<and> spanEnd sp = snd (frameSpanLoop stps target a b))"
proof (induction stps arbitrary: a b)
  case Nil
  show ?case by simp
next
  case (Cons s rest)
  show ?case
  proof (cases "\<exists>sp. contributes target s sp")
    case False
    with Cons.IH [of a b] show ?thesis
      unfolding frameSpanLoop_skip [OF False] by auto
  next
    case True
    then obtain sp where c: "contributes target s sp" by blast
    define a2 where "a2 = (if a = 0 \<or> line sp < a then line sp else a)"
    define b2 where "b2 = (if b = 0 \<or> spanEnd sp > b then spanEnd sp else b)"
    have eq: "frameSpanLoop (s # rest) target a b = frameSpanLoop rest target a2 b2"
      using frameSpanLoop_take [OF c] by (simp add: a2_def b2_def)
    have b2: "b2 = spanEnd sp \<or> b2 = b" by (simp add: b2_def)
    from Cons.IH [of a2 b2] show ?thesis
    proof
      assume "snd (frameSpanLoop rest target a2 b2) = b2"
      with b2 c show ?thesis unfolding eq by auto
    next
      assume "\<exists>t \<in> set rest. \<exists>sp'. contributes target t sp'
          \<and> spanEnd sp' = snd (frameSpanLoop rest target a2 b2)"
      then show ?thesis unfolding eq by auto
    qed
  qed
qed

text \<open>An accumulator that ends on 0 was never set: it started on 0 and no step contributed.\<close>

lemma frameSpanLoop_start_zero:
  "fst (frameSpanLoop stps target a b) = 0 \<Longrightarrow>
     a = 0 \<and> \<not> (\<exists>s \<in> set stps. \<exists>sp. contributes target s sp)"
proof (induction stps arbitrary: a b)
  case Nil
  then show ?case by simp
next
  case (Cons s rest)
  show ?case
  proof (cases "\<exists>sp. contributes target s sp")
    case False
    with Cons.IH [of a b] Cons.prems show ?thesis
      unfolding frameSpanLoop_skip [OF False] by simp
  next
    case True
    then obtain sp where c: "contributes target s sp" by blast
    have "(if a = 0 \<or> line sp < a then line sp else a) \<noteq> 0"
      using c by (auto simp: contributes_iff)
    with Cons.IH Cons.prems show ?thesis
      unfolding frameSpanLoop_take [OF c] by blast
  qed
qed

lemma frameSpanLoop_end_zero:
  "snd (frameSpanLoop stps target a b) = 0 \<Longrightarrow>
     b = 0 \<and> \<not> (\<exists>s \<in> set stps. \<exists>sp. contributes target s sp)"
proof (induction stps arbitrary: a b)
  case Nil
  then show ?case by simp
next
  case (Cons s rest)
  show ?case
  proof (cases "\<exists>sp. contributes target s sp")
    case False
    with Cons.IH [of a b] Cons.prems show ?thesis
      unfolding frameSpanLoop_skip [OF False] by simp
  next
    case True
    then obtain sp where c: "contributes target s sp" by blast
    have "(if b = 0 \<or> spanEnd sp > b then spanEnd sp else b) \<noteq> 0"
      using c by (auto simp: contributes_iff spanEnd_nonzero)
    with Cons.IH Cons.prems show ?thesis
      unfolding frameSpanLoop_take [OF c] by blast
  qed
qed

text \<open>
  \<open>frameSpanForFrame\<close> yields nothing exactly when no step contributes; otherwise its
  interval covers the line and the end of every contributing step and both of its ends
  are attained.
\<close>

lemma frameSpanForFrame_none:
  "frameSpanForFrame stps (Some target) = None
     \<longleftrightarrow> \<not> (\<exists>s \<in> set stps. \<exists>sp. contributes target s sp)"
proof -
  obtain a b where l: "frameSpanLoop stps target 0 0 = (a, b)"
    by (cases "frameSpanLoop stps target 0 0")
  have r: "frameSpanForFrame stps (Some target) = None \<longleftrightarrow> a = 0 \<or> b = 0"
    by (simp add: frameSpanForFrame_def l)
  show ?thesis
  proof (cases "\<exists>s \<in> set stps. \<exists>sp. contributes target s sp")
    case False
    with frameSpanLoop_start_attained [of stps target 0 0] l have "a = 0" by auto
    with False r show ?thesis by simp
  next
    case True
    have "a \<noteq> 0" using frameSpanLoop_start_zero [of stps target 0 0] l True by auto
    moreover have "b \<noteq> 0" using frameSpanLoop_end_zero [of stps target 0 0] l True by auto
    ultimately show ?thesis using r True by simp
  qed
qed

lemma frameSpanForFrame_some:
  assumes "frameSpanForFrame stps (Some target) = Some fs"
  shows "(\<forall>s \<in> set stps. \<forall>sp. contributes target s sp \<longrightarrow>
            startLine fs \<le> line sp \<and> spanEnd sp \<le> endLine fs)
       \<and> (\<exists>s \<in> set stps. \<exists>sp. contributes target s sp \<and> line sp = startLine fs)
       \<and> (\<exists>s \<in> set stps. \<exists>sp. contributes target s sp \<and> spanEnd sp = endLine fs)"
proof -
  obtain a b where l: "frameSpanLoop stps target 0 0 = (a, b)"
    by (cases "frameSpanLoop stps target 0 0")
  have fs: "a \<noteq> 0" "b \<noteq> 0" "startLine fs = a" "endLine fs = b"
    using assms by (auto simp: frameSpanForFrame_def l split: if_splits)
  have cover: "\<forall>s \<in> set stps. \<forall>sp. contributes target s sp \<longrightarrow> a \<le> line sp \<and> spanEnd sp \<le> b"
    using frameSpanLoop_start_below [of stps target 0 0]
      frameSpanLoop_end_above [of stps target 0 0] l by simp
  have lo: "\<exists>s \<in> set stps. \<exists>sp. contributes target s sp \<and> line sp = a"
    using frameSpanLoop_start_attained [of stps target 0 0] l fs(1) by simp
  have hi: "\<exists>s \<in> set stps. \<exists>sp. contributes target s sp \<and> spanEnd sp = b"
    using frameSpanLoop_end_attained [of stps target 0 0] l fs(2) by simp
  from cover lo hi show ?thesis unfolding fs(3,4) by blast
qed


lemma updateEditorDecorations_tint:
  assumes "trace st = Some tr"
  shows "fnTintSpan (dbg (updateEditorDecorations st (Some snap) (Some k))) =
           frameSpanForFrame (getSourceSteps (Some tr))
             (if k = Pass then Some 0 else frameIdFromStep (Some snap))"
    and "fnTintKind (dbg (updateEditorDecorations st (Some snap) (Some k))) =
           (if frameSpanForFrame (getSourceSteps (Some tr))
                 (if k = Pass then Some 0 else frameIdFromStep (Some snap)) = None
            then None else Some k)"
  using assms by (auto simp: updateEditorDecorations_def Let_def split: option.splits)

text \<open>
  C8. With a trace loaded whose source spans have non-zero lines (line numbers are
  1-based; the code reads line 0 as "no span") and a frame tint kind \<open>k\<close> other than
  none, \<open>updateEditorDecorations\<close> targets frame 0 when \<open>k\<close> is pass and the active
  step's own frame id otherwise. \<open>covered\<close> are the spans of the source steps that have
  a span and carry the target frame id; steps without a span or with another frame id
  are ignored. When \<open>covered\<close> is empty (which includes an active step without frame
  id), no tint span and no tint kind are set. Otherwise the tint kind is \<open>k\<close> and the
  tint span covers the line and the end line of every such span, and its start line and
  its end line are each attained by one: it is the minimal covering interval.
\<close>

theorem frame_tint_covers_frame:
  assumes "trace st = Some tr" and "srcs = getSourceSteps (Some tr)"
    and "\<forall>s \<in> set srcs. \<forall>mp sp. mapping s = Some mp \<and> span mp = Some sp \<longrightarrow> line sp \<noteq> 0"
    and "target = (if k = Pass then Some 0 else frameIdFromStep (Some snap))"
    and "covered = {sp. \<exists>s \<in> set srcs. \<exists>mp. mapping s = Some mp \<and> span mp = Some sp
                        \<and> frameIdFromStep (Some s) \<noteq> None
                        \<and> frameIdFromStep (Some s) = target}"
    and "st' = updateEditorDecorations st (Some snap) (Some k)"
  shows "(covered = {} \<longrightarrow> fnTintSpan (dbg st') = None \<and> fnTintKind (dbg st') = None)
       \<and> (covered \<noteq> {} \<longrightarrow>
            (\<exists>fs. fnTintSpan (dbg st') = Some fs \<and> fnTintKind (dbg st') = Some k
               \<and> (\<forall>sp \<in> covered. startLine fs \<le> line sp \<and> spanEnd sp \<le> endLine fs)
               \<and> (\<exists>sp \<in> covered. line sp = startLine fs)
               \<and> (\<exists>sp \<in> covered. spanEnd sp = endLine fs)))"
proof (cases target)
  case None
  then have "covered = {}" using assms(5) by auto
  moreover have "fnTintSpan (dbg st') = None \<and> fnTintKind (dbg st') = None"
    using updateEditorDecorations_tint [OF assms(1), of snap k] assms(4,6) None
    by (simp add: frameSpanForFrame_def)
  ultimately show ?thesis by simp
next
  case (Some f)
  have cov: "sp \<in> covered \<longleftrightarrow> (\<exists>s \<in> set srcs. contributes f s sp)" for sp
    using assms(3,5) Some by (auto simp: contributes_iff)
  have sp: "fnTintSpan (dbg st') = frameSpanForFrame srcs (Some f)"
    using updateEditorDecorations_tint(1) [OF assms(1), of snap k] assms(2,4,6) Some by simp
  have kd: "fnTintKind (dbg st') = (if frameSpanForFrame srcs (Some f) = None then None else Some k)"
    using updateEditorDecorations_tint(2) [OF assms(1), of snap k] assms(2,4,6) Some by simp
  show ?thesis
  proof (cases "frameSpanForFrame srcs (Some f)")
    case None
    then have "covered = {}" using frameSpanForFrame_none [of srcs f] cov by blast
    with None sp kd show ?thesis by simp
  next
    case (Some fs)
    note c = frameSpanForFrame_some [OF Some]
    have ne: "covered \<noteq> {}" using c cov by blast
    have c1: "\<forall>sp \<in> covered. startLine fs \<le> line sp \<and> spanEnd sp \<le> endLine fs"
      using c cov by blast
    have c2: "\<exists>sp \<in> covered. line sp = startLine fs" using c cov by blast
    have c3: "\<exists>sp \<in> covered. spanEnd sp = endLine fs" using c cov by blast
    from ne c1 c2 c3 Some sp kd show ?thesis by simp
  qed
qed

theorem frame_tint_covers_frame_witness:
  "trace exFrames \<noteq> None
   \<and> getSourceSteps (trace exFrames) = exFrameSteps
   \<and> frameIdFromStep (Some (exFrameSteps ! 1)) = Some 1
   \<and> fnTintKind (dbg (updateEditorDecorations exFrames (Some (exFrameSteps ! 1)) (Some Fail)))
       = Some Fail
   \<and> fnTintSpan (dbg (updateEditorDecorations exFrames (Some (exFrameSteps ! 1)) (Some Fail)))
       = Some \<lparr>startLine = 5, endLine = 7\<rparr>
   \<and> fnTintSpan (dbg (updateEditorDecorations exFrames (Some (exFrameSteps ! 1)) (Some Pass)))
       = Some \<lparr>startLine = 1, endLine = 3\<rparr>
   \<and> fnTintSpan (dbg (updateEditorDecorations exFrames (Some (exSpanStep 8 4 None)) (Some Fail)))
       = None"
proof -
  let ?tr = "\<lparr>opcode_steps = None, source_steps = Some exFrameSteps, steps = None\<rparr>"
  let ?snap = "exFrameSteps ! 1"
  have h1: "trace exFrames = Some ?tr" by (simp add: exFrames_def)
  have h2: "exFrameSteps = getSourceSteps (Some ?tr)"
    by (simp add: getSourceSteps_def exFrameSteps_def)
  have h3: "\<forall>s \<in> set exFrameSteps. \<forall>mp sp. mapping s = Some mp \<and> span mp = Some sp
              \<longrightarrow> line sp \<noteq> 0"
    by (auto simp: exFrameSteps_def exSpanStep_def)
  have f: "frameIdFromStep (Some ?snap) = Some 1"
    by (simp add: exFrameSteps_def exSpanStep_def frameIdFromStep_def)
  note T = frame_tint_covers_frame [OF h1 h2 h3 refl refl refl, of Fail ?snap]
  have "\<lparr>line = 5, end_line = Some 7\<rparr> \<in>
      {sp. \<exists>s \<in> set exFrameSteps. \<exists>mp. mapping s = Some mp \<and> span mp = Some sp
            \<and> frameIdFromStep (Some s) \<noteq> None
            \<and> frameIdFromStep (Some s) = (if Fail = Pass then Some 0 else frameIdFromStep (Some ?snap))}"
    unfolding f by (simp add: exFrameSteps_def exSpanStep_def frameIdFromStep_def)
  then have ne: "{sp. \<exists>s \<in> set exFrameSteps. \<exists>mp. mapping s = Some mp \<and> span mp = Some sp
            \<and> frameIdFromStep (Some s) \<noteq> None
            \<and> frameIdFromStep (Some s) = (if Fail = Pass then Some 0 else frameIdFromStep (Some ?snap))}
          \<noteq> {}" by blast
  from T ne
  have k: "fnTintKind (dbg (updateEditorDecorations exFrames (Some ?snap) (Some Fail))) = Some Fail"
    by blast
  have v1: "fnTintSpan (dbg (updateEditorDecorations exFrames (Some ?snap) (Some Fail)))
       = Some \<lparr>startLine = 5, endLine = 7\<rparr>" by code_simp
  have v2: "fnTintSpan (dbg (updateEditorDecorations exFrames (Some ?snap) (Some Pass)))
       = Some \<lparr>startLine = 1, endLine = 3\<rparr>" by code_simp
  note U = frame_tint_covers_frame [OF h1 h2 h3 refl refl refl, of Fail "exSpanStep 8 4 None"]
  have "{sp. \<exists>s \<in> set exFrameSteps. \<exists>mp. mapping s = Some mp \<and> span mp = Some sp
            \<and> frameIdFromStep (Some s) \<noteq> None
            \<and> frameIdFromStep (Some s)
                = (if Fail = Pass then Some 0 else frameIdFromStep (Some (exSpanStep 8 4 None)))}
          = {}"
    by (auto simp: exFrameSteps_def exSpanStep_def frameIdFromStep_def)
  with U
  have v3: "fnTintSpan (dbg (updateEditorDecorations exFrames (Some (exSpanStep 8 4 None)) (Some Fail)))
       = None" by blast
  have g: "getSourceSteps (trace exFrames) = exFrameSteps" using h1 h2 by simp
  from h1 g f k v1 v2 v3 show ?thesis by simp
qed

section \<open>The breakpoint set\<close>

text \<open>
  The breakpoint set starts empty. Lines are added by the gutter handler only, which
  ignores line 0 (the other handlers only remove lines); the stepping operations, the
  reset and the active-snapshot reads leave the set alone. So 0 is never a breakpoint.
\<close>

lemma toggleBreakpoint_no_zero:
  "0 \<notin> breakpoints (dbg st) \<Longrightarrow> 0 \<notin> breakpoints (dbg (toggleBreakpoint st ln))"
  by (simp add: toggleBreakpoint_def)

lemma toggleBreakpoint_membership:
  "ln \<noteq> 0 \<Longrightarrow> ln \<in> breakpoints (dbg (toggleBreakpoint st ln)) \<longleftrightarrow> ln \<notin> breakpoints (dbg st)"
  by (simp add: toggleBreakpoint_def)

lemma stepping_keeps_breakpoints:
  "breakpoints (dbg (stepIntoSource st)) = breakpoints (dbg st)"
  "breakpoints (dbg (stepOverSource st)) = breakpoints (dbg st)"
  "breakpoints (dbg (stepOutSource st)) = breakpoints (dbg st)"
  "breakpoints (dbg (stepOpcode st delta)) = breakpoints (dbg st)"
  by (simp_all add: stepIntoSource_def stepOverSource_def stepOutSource_def stepOpcode_def
      Let_def syncOpcodeFromSource_frame syncSourceFromOpcode_frame split: option.splits)

lemma continueExecution_keeps_breakpoints:
  "breakpoints (dbg (continueExecution st)) = breakpoints (dbg st)"
proof (cases "trace st")
  case None
  then show ?thesis by (simp add: continueExecution_def)
next
  case (Some tr)
  show ?thesis
  proof (cases "getSourceSteps (Some tr) = []")
    case True
    with Some show ?thesis by (simp add: continueExecution_def Let_def)
  next
    case False
    let ?st1 = "st\<lparr>dbg := (dbg st)\<lparr>mode := Source\<rparr>\<rparr>"
    have "continueToBreakpoint ?st1 = (fst (continueToBreakpoint ?st1), ?st1)"
      using continueToBreakpoint_source [of ?st1 tr] Some False by simp
    then have "snd (continueToBreakpoint ?st1) = ?st1" by (metis snd_conv)
    with Some False show ?thesis
      by (simp add: continueExecution_def Let_def syncOpcodeFromSource_frame)
  qed
qed

end
